theory Spec2Isabelle
  imports Main
begin

section \<open>Python strings\<close>

text \<open>
  A Python \<open>str\<close> is a sequence of Unicode code points, and \<open>len\<close>, slicing,
  \<open>replace\<close> and the character class of \<open>re.sub\<close> all count code points. A string
  is therefore modelled as a list of code points (natural numbers). ASCII literals are
  written through \<open>u\<close>; every other character is written by its code point.
\<close>

type_synonym pystr = "nat list"

definition u :: "string \<Rightarrow> pystr" where
  "u s = map of_char s"

text \<open>\<open>s.startswith(p)\<close>\<close>

definition startswith :: "pystr \<Rightarrow> pystr \<Rightarrow> bool" where
  "startswith s p = (take (length p) s = p)"

text \<open>\<open>p in s\<close> for strings: \<open>p\<close> occurs in \<open>s\<close> as a contiguous run.\<close>

fun contains :: "pystr \<Rightarrow> pystr \<Rightarrow> bool" where
  "contains p [] = (p = [])"
| "contains p (c # cs) = (startswith (c # cs) p \<or> contains p cs)"

text \<open>
  \<open>s.replace(old, new)\<close>: every occurrence of \<open>old\<close>, found from the left and not
  overlapping, is replaced. For an empty \<open>old\<close> Python puts \<open>new\<close> before every
  character and at the end.
\<close>

function replace_ne :: "pystr \<Rightarrow> pystr \<Rightarrow> pystr \<Rightarrow> pystr" where
  "replace_ne [] old new = []"
| "replace_ne (c # cs) old new =
     (if old \<noteq> [] \<and> startswith (c # cs) old
      then new @ replace_ne (drop (length old) (c # cs)) old new
      else c # replace_ne cs old new)"
  by pat_completeness auto
termination
  by (relation "measure (\<lambda>(s, old, new). length s)") (auto simp: neq_Nil_conv)

definition replace :: "pystr \<Rightarrow> pystr \<Rightarrow> pystr \<Rightarrow> pystr" where
  "replace s old new =
     (if old = [] then new @ concat (map (\<lambda>c. c # new) s) else replace_ne s old new)"

text \<open>
  \<open>s.split(sep)\<close> for a non-empty separator: the pieces between the occurrences of
  \<open>sep\<close>, found from the left and not overlapping; the result is never empty. Python
  raises \<open>ValueError\<close> for an empty separator; every separator in the source is a
  non-empty literal, and the model returns the string unsplit there.
\<close>

function split :: "pystr \<Rightarrow> pystr \<Rightarrow> pystr list" where
  "split [] sep = [[]]"
| "split (c # cs) sep =
     (if sep \<noteq> [] \<and> startswith (c # cs) sep
      then [] # split (drop (length sep) (c # cs)) sep
      else (case split cs sep of
              [] \<Rightarrow> [[c]]
            | p # ps \<Rightarrow> (c # p) # ps))"
  by pat_completeness auto
termination
  by (relation "measure (\<lambda>(s, sep). length s)") (auto simp: neq_Nil_conv)

text \<open>\<open>sep.join(xs)\<close>\<close>

fun join :: "pystr \<Rightarrow> pystr list \<Rightarrow> pystr" where
  "join sep [] = []"
| "join sep [x] = x"
| "join sep (x # y # ys) = x @ sep @ join sep (y # ys)"

text \<open>
  \<open>s.strip()\<close> removes leading and trailing whitespace, that is the code points for
  which \<open>str.isspace\<close> holds.
\<close>

definition isspace :: "nat \<Rightarrow> bool" where
  "isspace c = (c \<in> set [0x9, 0xA, 0xB, 0xC, 0xD, 0x1C, 0x1D, 0x1E, 0x1F, 0x20, 0x85, 0xA0,
     0x1680, 0x2000, 0x2001, 0x2002, 0x2003, 0x2004, 0x2005, 0x2006, 0x2007, 0x2008,
     0x2009, 0x200A, 0x2028, 0x2029, 0x202F, 0x205F, 0x3000])"

definition strip :: "pystr \<Rightarrow> pystr" where
  "strip s = rev (dropWhile isspace (rev (dropWhile isspace s)))"

section \<open>The canvas and errors\<close>

text \<open>
  The direct-layout converter draws through an \<open>FPDF\<close> object. The drawing library is
  an external collaborator; the model records the calls made on it, with their arguments,
  in the order they are made. \<open>SetAutoPageBreak\<close> stands for
  \<open>set_auto_page_break(auto=True, margin=25.4)\<close>, \<open>Ln None\<close> for \<open>ln()\<close>, and
  \<open>SetPageNumStarted\<close> for the assignment \<open>pdf.page_num_started = True\<close>, which is
  recorded in the same log although it is not a call.
\<close>

datatype canvas_call =
    AddPage
  | SetFont pystr pystr nat
  | SetAutoPageBreak
  | SetFillColor nat nat nat
  | Ln "nat option"
  | Cell nat nat pystr nat nat pystr
  | MultiCell nat nat pystr nat pystr bool
  | Write nat pystr
  | SetPageNumStarted
  | Output pystr

text \<open>
  Whether a call on the canvas raises is not decided by the converter. It is a parameter
  of the model: a predicate that is given the calls completed so far and the call being
  made. A raise is the value \<open>Inl (c, log)\<close>: the call \<open>c\<close> raised after the calls
  \<open>log\<close> had completed.
\<close>

type_synonym raising = "canvas_call list \<Rightarrow> canvas_call \<Rightarrow> bool"

type_synonym 'a canvas_result = "(canvas_call \<times> canvas_call list) + 'a"

definition never :: raising where
  "never log c = False"

definition emit :: "raising \<Rightarrow> canvas_call \<Rightarrow> canvas_call list \<Rightarrow> canvas_call list canvas_result" where
  "emit R c log = (if R log c then Inl (c, log) else Inr (log @ [c]))"

text \<open>A sequence of calls with no control flow in between stops at the first raise.\<close>

fun emits :: "raising \<Rightarrow> canvas_call list \<Rightarrow> canvas_call list \<Rightarrow> canvas_call list canvas_result" where
  "emits R [] log = Inr log"
| "emits R (c # cs) log =
     (case emit R c log of
        Inl e \<Rightarrow> Inl e
      | Inr log' \<Rightarrow> emits R cs log')"

text \<open>\<open>try: ... except: pass\<close> around canvas calls: the calls made before the raise stay.\<close>

definition except_pass :: "canvas_call list canvas_result \<Rightarrow> canvas_call list" where
  "except_pass r = (case r of Inl (c, log) \<Rightarrow> log | Inr log \<Rightarrow> log)"

datatype py_error = IndexError | CanvasError canvas_call

text \<open>\<open>xs[i]\<close> for a non-negative index.\<close>

definition item :: "'a list \<Rightarrow> nat \<Rightarrow> py_error + 'a" where
  "item xs i = (if i < length xs then Inr (xs ! i) else Inl IndexError)"

section \<open>Metadata extraction\<close>

record metadata =
  title :: pystr
  author :: pystr
  student_id :: pystr
  course :: pystr
  date :: pystr

definition empty_metadata :: metadata where
  "empty_metadata = \<lparr>title = [], author = [], student_id = [], course = [], date = []\<rparr>"

text \<open>
  Both converters scan lines with the same \<open>if\<close>/\<open>elif\<close> chain; they differ in the
  spelling of the student-id label, which is the first parameter here. Every matching line
  assigns its field anew.
\<close>

definition scan_line :: "pystr \<Rightarrow> metadata \<Rightarrow> pystr \<Rightarrow> py_error + metadata" where
  "scan_line clave m line =
     (if startswith line (u ''# '') then
        Inr (m\<lparr>title := strip (replace line (u ''# '') [])\<rparr>)
      else if contains (u ''**Estudiante:**'') line then
        (case item (split line (u ''**Estudiante:**'')) 1 of
           Inl e \<Rightarrow> Inl e
         | Inr v \<Rightarrow> Inr (m\<lparr>author := strip v\<rparr>))
      else if contains clave line then
        (case item (split line clave) 1 of
           Inl e \<Rightarrow> Inl e
         | Inr v \<Rightarrow> Inr (m\<lparr>student_id := strip v\<rparr>))
      else if contains (u ''**Materia:**'') line then
        (case item (split line (u ''**Materia:**'')) 1 of
           Inl e \<Rightarrow> Inl e
         | Inr v \<Rightarrow> Inr (m\<lparr>course := strip v\<rparr>))
      else if contains (u ''**Fecha:**'') line then
        (case item (split line (u ''**Fecha:**'')) 1 of
           Inl e \<Rightarrow> Inl e
         | Inr v \<Rightarrow> Inr (m\<lparr>date := strip v\<rparr>))
      else Inr m)"

fun scan_lines :: "pystr \<Rightarrow> metadata \<Rightarrow> pystr list \<Rightarrow> py_error + metadata" where
  "scan_lines clave m [] = Inr m"
| "scan_lines clave m (line # rest) =
     (case scan_line clave m line of
        Inl e \<Rightarrow> Inl e
      | Inr m' \<Rightarrow> scan_lines clave m' rest)"

text \<open>The student-id label of \<open>convert_to_apa_pdf.py\<close>, spelled with U+00DA (U with acute).\<close>

definition clave_accented :: pystr where
  "clave_accented = u ''**Clave '' @ [0xDA] @ u ''nica:**''"

text \<open>The student-id label of \<open>convert_to_apa_pdf_simple.py\<close>, spelled without the accent.\<close>

definition clave_plain :: pystr where
  "clave_plain = u ''**Clave Unica:**''"

section \<open>The HTML/CSS converter: \<open>convert_to_apa_pdf.py\<close>\<close>

definition apa_content :: "metadata \<Rightarrow> pystr" where
  \<open>apa_content m =
     (u ''\<newline>'' @ u ''<div class="title-page">\<newline>'' @
      u ''    <div class="running-head">LA GRAM'' @ [0xC1] @
      u ''TICA DE PYTHON</div>\<newline>'' @ u ''    <div class="main-title">'') @
     title m @
     (u ''</div>\<newline>'' @ u ''    <div class="author-info">\<newline>'' @
      u ''        <p class="author">'') @
     author m @
     (u ''</p>\<newline>'' @ u ''        <p class="student-id">Clave '' @ [0xDA] @
      u ''nica: '') @
     student_id m @
     (u ''</p>\<newline>'' @ u ''        <p class="institution">Universidad Nacional Aut'' @
      [0xF3] @ u ''noma de M'' @ [0xE9] @ u ''xico</p>\<newline>'' @
      u ''        <p class="course">'') @
     course m @
     (u ''</p>\<newline>'' @ u ''        <p class="date">'') @
     date m @
     (u ''</p>\<newline>'' @ u ''    </div>\<newline>'' @ u ''</div>\<newline>'' @
      u ''\<newline>'' @ u ''<div class="page-break"></div>\<newline>'' @ u ''\<newline>'' @
      u ''<div class="abstract">\<newline>'' @ u ''    <h2>Resumen</h2>\<newline>'' @
      u ''    <p>Este trabajo de investigaci'' @ [0xF3] @ u ''n analiza la gram'' @ [0xE1] @
      u ''tica del lenguaje de programaci'' @ [0xF3] @
      u ''n Python para determinar su clasificaci'' @ [0xF3] @
      u ''n dentro de la jerarqu'' @ [0xED] @ u ''a de Chomsky. Se examina espec'' @
      [0xED] @ u ''ficamente si Python es un lenguaje libre de contexto o sensible '' @
      u ''al contexto, con enfoque particular en el rol de la indentaci'' @ [0xF3] @
      u ''n significativa. A trav'' @ [0xE9] @ u ''s del an'' @ [0xE1] @ u ''lisis te'' @
      [0xF3] @ u ''rico y pr'' @ [0xE1] @
      u ''ctico, se demuestra que Python requiere una gram'' @ [0xE1] @
      u ''tica sensible al contexto (Tipo 1 en la jerarqu'' @ [0xED] @
      u ''a de Chomsky) debido a su sistema de indentaci'' @ [0xF3] @
      u ''n, lo cual tiene implicaciones importantes para el dise'' @ [0xF1] @
      u ''o de compiladores y la complejidad computacional del an'' @ [0xE1] @
      u ''lisis sint'' @ [0xE1] @ u ''ctico.</p>\<newline>'' @
      u ''    <p><strong>Palabras clave:</strong> Python, gram'' @ [0xE1] @
      u ''tica sensible al contexto, jerarqu'' @ [0xED] @ u ''a de Chomsky, indentaci'' @
      [0xF3] @ u ''n, an'' @ [0xE1] @ u ''lisis sint'' @ [0xE1] @
      u ''ctico</p>\<newline>'' @ u ''</div>\<newline>'' @ u ''\<newline>'' @
      u ''<div class="page-break"></div>\<newline>'')\<close>

text \<open>
  The thirteen \<open>line.replace\<close> statements, in the order of the source. The sixth
  pattern is two code points long (U+1F6E0 followed by the variation selector U+FE0F).
\<close>

definition emoji_replacements :: "(pystr \<times> pystr) list" where
  "emoji_replacements =
     [([0x1F3AF], []), ([0x1F4DA], []), ([0x1F40D], []), ([0x1F50D], []), ([0x1F4CA], []),
      ([0x1F6E0, 0xFE0F], []), ([0x1F52C], []), ([0x1F504], []), ([0x1F4DD], []),
      ([0x1F517], []), ([0x1F4AD], []),
      ([0x2705], u ''[S'' @ [0xED] @ u '']''), ([0x274C], u ''[No]'')]"

definition convert_emojis :: "pystr \<Rightarrow> pystr" where
  "convert_emojis line = foldl (\<lambda>l (old, new). replace l old new) line emoji_replacements"

definition adjust_heading :: "pystr \<Rightarrow> pystr" where
  "adjust_heading line =
     (if startswith line (u ''## '') then u ''# '' @ drop 3 line
      else if startswith line (u ''### '') then u ''## '' @ drop 4 line
      else if startswith line (u ''#### '') then u ''### '' @ drop 5 line
      else line)"

text \<open>The marker heading: \<open>##\<close>, a space, U+1F3AF, a space, \<open>Objetivo\<close>.\<close>

definition objetivo_marker :: pystr where
  "objetivo_marker = u ''## '' @ [0x1F3AF] @ u '' Objetivo''"

text \<open>
  The second loop of \<open>process_markdown_for_apa\<close>; the result is \<open>processed_lines\<close>,
  the first argument is \<open>skip_header\<close>.
\<close>

fun transform_lines :: "bool \<Rightarrow> pystr list \<Rightarrow> pystr list" where
  "transform_lines skip_header [] = []"
| "transform_lines skip_header (line # rest) =
     (if skip_header \<and> \<not> startswith line objetivo_marker then transform_lines True rest
      else adjust_heading (convert_emojis line) # transform_lines False rest)"

definition process_markdown_for_apa :: "pystr \<Rightarrow> py_error + pystr" where
  "process_markdown_for_apa markdown_content =
     (let lines = split markdown_content (u ''\<newline>'') in
      case scan_lines clave_accented empty_metadata lines of
        Inl e \<Rightarrow> Inl e
      | Inr m \<Rightarrow> Inr (apa_content m @ join (u ''\<newline>'') (transform_lines True lines)))"

definition create_apa_css :: pystr where
  \<open>create_apa_css =
     u ''\<newline>'' @ u ''    @page {\<newline>'' @
     u ''        size: letter;\<newline>'' @ u ''        margin: 1in;\<newline>'' @
     u ''        @top-right {\<newline>'' @
     u ''            content: counter(page);\<newline>'' @
     u ''            font-family: 'Times New Roman', serif;\<newline>'' @
     u ''            font-size: 12pt;\<newline>'' @ u ''        }\<newline>'' @
     u ''        @top-left {\<newline>'' @ u ''            content: "LA GRAM'' @ [0xC1] @
     u ''TICA DE PYTHON";\<newline>'' @
     u ''            font-family: 'Times New Roman', serif;\<newline>'' @
     u ''            font-size: 12pt;\<newline>'' @ u ''        }\<newline>'' @
     u ''    }\<newline>'' @ u ''    \<newline>'' @ u ''    body {\<newline>'' @
     u ''        font-family: 'Times New Roman', serif;\<newline>'' @
     u ''        font-size: 12pt;\<newline>'' @ u ''        line-height: 2;\<newline>'' @
     u ''        text-align: left;\<newline>'' @ u ''        color: #000000;\<newline>'' @
     u ''    }\<newline>'' @ u ''    \<newline>'' @ u ''    .title-page {\<newline>'' @
     u ''        page-break-after: always;\<newline>'' @
     u ''        display: flex;\<newline>'' @
     u ''        flex-direction: column;\<newline>'' @
     u ''        justify-content: center;\<newline>'' @
     u ''        min-height: 100vh;\<newline>'' @
     u ''        text-align: center;\<newline>'' @ u ''    }\<newline>'' @
     u ''    \<newline>'' @ u ''    .running-head {\<newline>'' @
     u ''        position: absolute;\<newline>'' @ u ''        top: 0;\<newline>'' @
     u ''        left: 0;\<newline>'' @ u ''        font-size: 12pt;\<newline>'' @
     u ''        text-transform: uppercase;\<newline>'' @ u ''    }\<newline>'' @
     u ''    \<newline>'' @ u ''    .main-title {\<newline>'' @
     u ''        font-size: 16pt;\<newline>'' @ u ''        font-weight: bold;\<newline>'' @
     u ''        margin: 2em 0;\<newline>'' @ u ''        text-align: center;\<newline>'' @
     u ''    }\<newline>'' @ u ''    \<newline>'' @ u ''    .author-info {\<newline>'' @
     u ''        margin-top: 3em;\<newline>'' @
     u ''        text-align: center;\<newline>'' @ u ''    }\<newline>'' @
     u ''    \<newline>'' @ u ''    .author-info p {\<newline>'' @
     u ''        margin: 0.5em 0;\<newline>'' @ u ''    }\<newline>'' @
     u ''    \<newline>'' @ u ''    .author {\<newline>'' @
     u ''        font-weight: bold;\<newline>'' @ u ''    }\<newline>'' @
     u ''    \<newline>'' @ u ''    .abstract {\<newline>'' @
     u ''        page-break-after: always;\<newline>'' @ u ''    }\<newline>'' @
     u ''    \<newline>'' @ u ''    .abstract h2 {\<newline>'' @
     u ''        text-align: center;\<newline>'' @
     u ''        font-weight: bold;\<newline>'' @ u ''        margin: 1em 0;\<newline>'' @
     u ''    }\<newline>'' @ u ''    \<newline>'' @ u ''    .page-break {\<newline>'' @
     u ''        page-break-after: always;\<newline>'' @ u ''    }\<newline>'' @
     u ''    \<newline>'' @ u ''    h1 {\<newline>'' @
     u ''        font-size: 14pt;\<newline>'' @ u ''        font-weight: bold;\<newline>'' @
     u ''        text-align: center;\<newline>'' @ u ''        margin: 1em 0;\<newline>'' @
     u ''    }\<newline>'' @ u ''    \<newline>'' @ u ''    h2 {\<newline>'' @
     u ''        font-size: 13pt;\<newline>'' @ u ''        font-weight: bold;\<newline>'' @
     u ''        text-align: left;\<newline>'' @ u ''        margin: 1em 0;\<newline>'' @
     u ''    }\<newline>'' @ u ''    \<newline>'' @ u ''    h3 {\<newline>'' @
     u ''        font-size: 12pt;\<newline>'' @ u ''        font-weight: bold;\<newline>'' @
     u ''        font-style: italic;\<newline>'' @
     u ''        text-align: left;\<newline>'' @ u ''        margin: 1em 0;\<newline>'' @
     u ''        text-indent: 0.5in;\<newline>'' @ u ''    }\<newline>'' @
     u ''    \<newline>'' @ u ''    p {\<newline>'' @
     u ''        text-indent: 0.5in;\<newline>'' @ u ''        margin: 0;\<newline>'' @
     u ''        text-align: justify;\<newline>'' @ u ''    }\<newline>'' @
     u ''    \<newline>'' @ u ''    p:first-of-type {\<newline>'' @
     u ''        text-indent: 0;\<newline>'' @ u ''    }\<newline>'' @
     u ''    \<newline>'' @ u ''    ul, ol {\<newline>'' @
     u ''        margin-left: 0.5in;\<newline>'' @
     u ''        margin-top: 0.5em;\<newline>'' @
     u ''        margin-bottom: 0.5em;\<newline>'' @ u ''    }\<newline>'' @
     u ''    \<newline>'' @ u ''    li {\<newline>'' @
     u ''        margin: 0.25em 0;\<newline>'' @ u ''    }\<newline>'' @
     u ''    \<newline>'' @ u ''    blockquote {\<newline>'' @
     u ''        margin: 1em 0.5in;\<newline>'' @ u ''        font-size: 11pt;\<newline>'' @
     u ''        line-height: 1.5;\<newline>'' @ u ''    }\<newline>'' @
     u ''    \<newline>'' @ u ''    code {\<newline>'' @
     u ''        font-family: 'Courier New', monospace;\<newline>'' @
     u ''        font-size: 10pt;\<newline>'' @
     u ''        background-color: #f5f5f5;\<newline>'' @
     u ''        padding: 0.1em 0.3em;\<newline>'' @ u ''    }\<newline>'' @
     u ''    \<newline>'' @ u ''    pre {\<newline>'' @
     u ''        font-family: 'Courier New', monospace;\<newline>'' @
     u ''        font-size: 10pt;\<newline>'' @
     u ''        background-color: #f5f5f5;\<newline>'' @
     u ''        padding: 1em;\<newline>'' @ u ''        margin: 1em 0.5in;\<newline>'' @
     u ''        line-height: 1.5;\<newline>'' @ u ''        overflow-x: auto;\<newline>'' @
     u ''        border: 1px solid #ddd;\<newline>'' @ u ''    }\<newline>'' @
     u ''    \<newline>'' @ u ''    pre code {\<newline>'' @
     u ''        background-color: transparent;\<newline>'' @
     u ''        padding: 0;\<newline>'' @ u ''    }\<newline>'' @ u ''    \<newline>'' @
     u ''    table {\<newline>'' @ u ''        border-collapse: collapse;\<newline>'' @
     u ''        width: 100%;\<newline>'' @ u ''        margin: 1em 0;\<newline>'' @
     u ''        font-size: 11pt;\<newline>'' @ u ''    }\<newline>'' @
     u ''    \<newline>'' @ u ''    table caption {\<newline>'' @
     u ''        font-style: italic;\<newline>'' @
     u ''        margin-bottom: 0.5em;\<newline>'' @
     u ''        text-align: left;\<newline>'' @ u ''    }\<newline>'' @
     u ''    \<newline>'' @ u ''    th {\<newline>'' @
     u ''        border-top: 2px solid black;\<newline>'' @
     u ''        border-bottom: 1px solid black;\<newline>'' @
     u ''        padding: 0.5em;\<newline>'' @ u ''        text-align: center;\<newline>'' @
     u ''        font-weight: bold;\<newline>'' @ u ''    }\<newline>'' @
     u ''    \<newline>'' @ u ''    td {\<newline>'' @
     u ''        padding: 0.5em;\<newline>'' @ u ''        text-align: left;\<newline>'' @
     u ''    }\<newline>'' @ u ''    \<newline>'' @ u ''    tr:last-child td {\<newline>'' @
     u ''        border-bottom: 2px solid black;\<newline>'' @ u ''    }\<newline>'' @
     u ''    \<newline>'' @ u ''    strong {\<newline>'' @
     u ''        font-weight: bold;\<newline>'' @ u ''    }\<newline>'' @
     u ''    \<newline>'' @ u ''    em {\<newline>'' @
     u ''        font-style: italic;\<newline>'' @ u ''    }\<newline>'' @
     u ''    \<newline>'' @ u ''    hr {\<newline>'' @
     u ''        border: none;\<newline>'' @
     u ''        border-top: 1px solid #000;\<newline>'' @
     u ''        margin: 1em 0;\<newline>'' @ u ''    }\<newline>'' @ u ''    \<newline>'' @
     u ''    /* Referencias APA */\<newline>'' @ u ''    .references {\<newline>'' @
     u ''        margin-top: 2em;\<newline>'' @ u ''    }\<newline>'' @
     u ''    \<newline>'' @ u ''    .references h1 {\<newline>'' @
     u ''        text-align: center;\<newline>'' @ u ''    }\<newline>'' @
     u ''    \<newline>'' @ u ''    .reference-entry {\<newline>'' @
     u ''        margin-left: 0.5in;\<newline>'' @
     u ''        text-indent: -0.5in;\<newline>'' @
     u ''        margin-bottom: 1em;\<newline>'' @ u ''    }\<newline>'' @ u ''    ''\<close>

definition html_head :: pystr where
  \<open>html_head =
     u ''\<newline>'' @ u ''    <!DOCTYPE html>\<newline>'' @ u ''    <html>\<newline>'' @
     u ''    <head>\<newline>'' @ u ''        <meta charset="UTF-8">\<newline>'' @
     u ''        <title>La Gram'' @ [0xE1] @ u ''tica de Python y las Gram'' @ [0xE1] @
     u ''ticas Sensibles al Contexto</title>\<newline>'' @ u ''    </head>\<newline>'' @
     u ''    <body>\<newline>'' @ u ''        ''\<close>

definition html_tail :: pystr where
  \<open>html_tail =
     u ''\<newline>'' @ u ''    </body>\<newline>'' @ u ''    </html>\<newline>'' @
     u ''    ''\<close>

text \<open>
  \<open>convert_to_pdf\<close> hands a complete HTML document and the stylesheet to the rendering
  backend. The Markdown-to-HTML translator \<open>markdown2.markdown\<close> is an external
  collaborator and a parameter of the model. The result is the pair of strings given to the
  backend.
\<close>

definition convert_to_pdf :: "(pystr \<Rightarrow> pystr) \<Rightarrow> pystr \<Rightarrow> py_error + (pystr \<times> pystr)" where
  "convert_to_pdf markdown markdown_content =
     (case process_markdown_for_apa markdown_content of
        Inl e \<Rightarrow> Inl e
      | Inr apa_markdown \<Rightarrow>
          Inr (html_head @ markdown apa_markdown @ html_tail, create_apa_css))"

section \<open>The direct-layout converter: \<open>convert_to_apa_pdf_simple.py\<close>\<close>

text \<open>The dictionary \<open>replacements\<close> of \<open>clean_text\<close>, in insertion order.\<close>

definition replacements :: "(nat \<times> pystr) list" where
  "replacements =
     [(0x3A3, u ''Sigma''), (0x3B1, u ''alpha''), (0x3B2, u ''beta''),
      (0x3B3, u ''gamma''), (0x394, u ''Delta''), (0x2208, u ''en''), (0x222A, u ''U''),
      (0x2192, u ''->''), (0x2264, u ''<=''), (0x2265, u ''>=''),
      (0x221E, u ''infinito''), (0x221A, u ''raiz''), (0xD7, u ''x''), (0xF7, u ''/''),
      (0x2260, u ''!=''), (0x2248, u ''~''), (0xE1, u ''a''), (0xE9, u ''e''),
      (0xED, u ''i''), (0xF3, u ''o''), (0xFA, u ''u''), (0xF1, u ''n''), (0xC1, u ''A''),
      (0xC9, u ''E''), (0xCD, u ''I''), (0xD3, u ''O''), (0xDA, u ''U''), (0xD1, u ''N'')]"

definition clean_text :: "pystr \<Rightarrow> pystr" where
  "clean_text text = foldl (\<lambda>t (old, new). replace t [old] new) text replacements"

text \<open>
  \<open>process_document\<close>, from the text read from the file on. The metadata loop runs over
  \<open>lines[:10]\<close> of the cleaned text.
\<close>

definition process_document :: "pystr \<Rightarrow> py_error + (metadata \<times> pystr list)" where
  "process_document content =
     (let lines = split (clean_text content) (u ''\<newline>'') in
      case scan_lines clave_plain empty_metadata (take 10 lines) of
        Inl e \<Rightarrow> Inl e
      | Inr m \<Rightarrow> Inr (m, lines))"

definition abstract_text :: pystr where
  "abstract_text =
     u ''Este trabajo de investigacion analiza la gramatica del lenguaje '' @
     u ''de programacion Python para determinar su clasificacion dentro '' @
     u ''de la jerarquia de Chomsky. Se examina especificamente si Python '' @
     u ''es un lenguaje libre de contexto o sensible al contexto, con '' @
     u ''enfoque particular en el rol de la indentacion significativa. '' @
     u ''A traves del analisis teorico y practico, se demuestra que Python '' @
     u ''requiere una gramatica sensible al contexto (Tipo 1 en la jerarquia '' @
     u ''de Chomsky) debido a su sistema de indentacion, lo cual tiene '' @
     u ''implicaciones importantes para el diseno de compiladores y la '' @
     u ''complejidad computacional del analisis sintactico.''"

definition keywords_text :: pystr where
  "keywords_text =
     u ''Python, gramatica sensible al contexto, jerarquia de Chomsky, '' @
     u ''indentacion, analisis sintactico''"

text \<open>The calls of the title page and of the abstract page, up to the page break before the body.\<close>

definition title_page :: "metadata \<Rightarrow> canvas_call list" where
  "title_page m =
     [AddPage,
      SetFont (u ''Times'') [] 12,
      SetAutoPageBreak,
      Ln (Some 50),
      SetFont (u ''Times'') (u ''B'') 16,
      MultiCell 0 10 (strip (replace (replace (title m) [0x1F3AF] []) [0x1F4DA] [])) 0 (u ''C'') False,
      Ln (Some 40),
      SetFont (u ''Times'') (u ''B'') 12,
      Cell 0 10 (author m) 0 1 (u ''C''),
      Ln (Some 5),
      SetFont (u ''Times'') [] 12,
      Cell 0 10 (u ''Clave Unica: '' @ student_id m) 0 1 (u ''C''),
      Ln (Some 5),
      Cell 0 10 (u ''Universidad Nacional Autonoma de Mexico'') 0 1 (u ''C''),
      Ln (Some 5),
      MultiCell 0 10 (replace (course m) (u ''COM-11113 '') (u ''COM-11113\<newline>'')) 0 (u ''C'') False,
      Ln (Some 5),
      Cell 0 10 (date m) 0 1 (u ''C''),
      AddPage]"

definition abstract_page :: "canvas_call list" where
  "abstract_page =
     [SetFont (u ''Times'') (u ''B'') 14,
      Cell 0 10 (u ''Resumen'') 0 1 (u ''C''),
      Ln (Some 5),
      SetFont (u ''Times'') [] 12,
      MultiCell 0 10 abstract_text 0 (u ''J'') False,
      Ln (Some 5),
      SetFont (u ''Times'') (u ''B'') 12,
      Write 10 (u ''Palabras clave: ''),
      SetFont (u ''Times'') (u ''I'') 12,
      Write 10 keywords_text,
      AddPage]"

text \<open>The state of the body loop: its five variables that are read, and the canvas log.\<close>

record loop_state =
  skip_header :: bool
  in_code_block :: bool
  code_buffer :: "pystr list"
  in_table :: bool
  table_data :: "pystr list"
  pdf :: "canvas_call list"

definition initial_state :: "canvas_call list \<Rightarrow> loop_state" where
  "initial_state log =
     \<lparr>skip_header = True, in_code_block = False, code_buffer = [],
      in_table = False, table_data = [], pdf = log\<rparr>"

text \<open>
  \<open>re.sub(r'[...]', '', line)\<close>: the pattern is a character class, so every code point
  of the class is deleted wherever it stands. The class holds fourteen code points: the
  eleven pictographs, the variation selector U+FE0F, U+2705 and U+274C.
\<close>

definition emoji_class :: "nat list" where
  "emoji_class =
     [0x1F3AF, 0x1F4DA, 0x1F40D, 0x1F50D, 0x1F4CA, 0x1F6E0, 0xFE0F, 0x1F52C, 0x1F504,
      0x1F4DD, 0x1F517, 0x1F4AD, 0x2705, 0x274C]"

definition clean_emojis :: "pystr \<Rightarrow> pystr" where
  "clean_emojis line = filter (\<lambda>c. c \<notin> set emoji_class) line"

text \<open>The closing fence: the buffered lines are drawn, each cut to 70 code points.\<close>

definition clean_line :: "pystr \<Rightarrow> pystr" where
  "clean_line code_line = (if code_line \<noteq> [] then take 70 code_line else [])"

definition draw_code_buffer :: "raising \<Rightarrow> pystr list \<Rightarrow> canvas_call list \<Rightarrow> canvas_call list canvas_result" where
  "draw_code_buffer R buf log =
     (if buf \<noteq> [] then
        (case emits R [SetFont (u ''Courier'') [] 10, SetFillColor 245 245 245] log of
           Inl e \<Rightarrow> Inl e
         | Inr log1 \<Rightarrow>
             emit R (SetFillColor 255 255 255)
               (foldl (\<lambda>l code_line.
                         except_pass (emit R (MultiCell 0 5 (clean_line code_line) 0 (u ''L'') True) l))
                      log1 buf))
      else Inr log)"

text \<open>The end of a table: at most five rows, three cells a row, twenty code points a cell.\<close>

definition row_cells :: "pystr \<Rightarrow> pystr list" where
  "row_cells row = map strip (butlast (drop 1 (split row (u ''|''))))"

definition draw_row :: "pystr \<Rightarrow> canvas_call list" where
  "draw_row row = map (\<lambda>cell. Cell 60 8 (take 20 cell) 1 0 (u ''C'')) (take 3 (row_cells row)) @ [Ln None]"

definition draw_table :: "raising \<Rightarrow> pystr list \<Rightarrow> canvas_call list \<Rightarrow> canvas_call list canvas_result" where
  "draw_table R rows log =
     (if rows \<noteq> [] then
        emits R (SetFont (u ''Times'') [] 10 # concat (map draw_row (take 5 rows))) log
      else Inr log)"

text \<open>\<open>[text[i:i+180] for i in range(0, len(text), 180)]\<close>\<close>

definition chunks :: "pystr \<Rightarrow> pystr list" where
  "chunks text =
     map (\<lambda>i. take 180 (drop i text)) (map (\<lambda>k. 180 * k) [0 ..< (length text + 179) div 180])"

text \<open>A paragraph with \<open>**\<close>: the pieces between the delimiters, alternately plain and bold.\<close>

definition draw_inline :: "pystr \<Rightarrow> canvas_call list" where
  "draw_inline text =
     concat (map (\<lambda>(j, part).
                    SetFont (u ''Times'') (if j mod 2 = 0 then [] else u ''B'') 12 #
                    (if part \<noteq> [] then [Write 10 part] else []))
                 (enumerate 0 (split text (u ''**'')))) @
     [Ln (Some 10)]"

text \<open>A paragraph without \<open>**\<close>: indented unless it is a list item or a quotation.\<close>

definition indent :: "pystr \<Rightarrow> pystr" where
  "indent line =
     (if \<not> startswith line (u ''-'') \<and> \<not> startswith line (u ''*'') \<and> \<not> startswith line (u ''>'')
      then u ''    '' @ line else line)"

definition draw_plain :: "raising \<Rightarrow> pystr \<Rightarrow> canvas_call list \<Rightarrow> canvas_call list" where
  "draw_plain R line log =
     (let text = indent line in
      except_pass
        (if length text > 200 then
           emits R (map (\<lambda>chunk. MultiCell 0 10 chunk 0 (u ''L'') False)
                        (filter (\<lambda>chunk. strip chunk \<noteq> []) (chunks text))) log
         else emit R (MultiCell 0 10 text 0 (u ''L'') False) log))"

text \<open>Headings, rules and paragraphs: the last \<open>if\<close>/\<open>elif\<close> chain of the loop body.\<close>

definition draw_block :: "raising \<Rightarrow> pystr \<Rightarrow> canvas_call list \<Rightarrow> canvas_call list canvas_result" where
  "draw_block R line log =
     (if startswith line (u ''## '') then
        emits R [Ln (Some 5), SetFont (u ''Times'') (u ''B'') 14,
                 MultiCell 0 10 (strip (drop 3 line)) 0 (u ''C'') False,
                 Ln (Some 3), SetFont (u ''Times'') [] 12] log
      else if startswith line (u ''### '') then
        emits R [Ln (Some 3), SetFont (u ''Times'') (u ''B'') 13,
                 MultiCell 0 10 (strip (drop 4 line)) 0 (u ''L'') False,
                 Ln (Some 2), SetFont (u ''Times'') [] 12] log
      else if startswith line (u ''#### '') then
        emits R [Ln (Some 2), SetFont (u ''Times'') (u ''BI'') 12,
                 MultiCell 0 10 (u ''    '' @ strip (drop 5 line)) 0 (u ''L'') False,
                 Ln (Some 2), SetFont (u ''Times'') [] 12] log
      else if startswith line (u ''---'') then
        emit R (Ln (Some 5)) log
      else if strip line \<noteq> [] then
        (if contains (u ''**'') line then emits R (draw_inline line) log
         else Inr (draw_plain R line log))
      else Inr log)"

text \<open>The table test and what follows it, for a line outside a code block.\<close>

definition table_or_block :: "raising \<Rightarrow> loop_state \<Rightarrow> pystr \<Rightarrow> loop_state canvas_result" where
  "table_or_block R st line =
     (if contains (u ''|'') line \<and> contains (u ''---'') line then
        Inr (st\<lparr>in_table := True\<rparr>)
      else if in_table st \<and> contains (u ''|'') line then
        Inr (st\<lparr>table_data := table_data st @ [line]\<rparr>)
      else if in_table st \<and> \<not> contains (u ''|'') line then
        (case draw_table R (table_data st) (pdf st) of
           Inl e \<Rightarrow> Inl e
         | Inr log1 \<Rightarrow>
             (case draw_block R line log1 of
                Inl e \<Rightarrow> Inl e
              | Inr log2 \<Rightarrow> Inr (st\<lparr>table_data := [], in_table := False, pdf := log2\<rparr>)))
      else
        (case draw_block R line (pdf st) of
           Inl e \<Rightarrow> Inl e
         | Inr log2 \<Rightarrow> Inr (st\<lparr>pdf := log2\<rparr>)))"

text \<open>The loop body from the emoji cleaning on, for a line that is not skipped.\<close>

definition body_line :: "raising \<Rightarrow> loop_state \<Rightarrow> pystr \<Rightarrow> loop_state canvas_result" where
  "body_line R st raw =
     (let line = clean_emojis raw in
      if startswith (strip line) (u ''```'') then
        (if in_code_block st then
           (case draw_code_buffer R (code_buffer st) (pdf st) of
              Inl e \<Rightarrow> Inl e
            | Inr log1 \<Rightarrow> Inr (st\<lparr>code_buffer := [], in_code_block := False, pdf := log1\<rparr>))
         else
           (case emit R (Ln (Some 2)) (pdf st) of
              Inl e \<Rightarrow> Inl e
            | Inr log1 \<Rightarrow> Inr (st\<lparr>in_code_block := True, pdf := log1\<rparr>)))
      else if in_code_block st then
        Inr (st\<lparr>code_buffer := code_buffer st @ [line]\<rparr>)
      else table_or_block R st line)"

definition process_line :: "raising \<Rightarrow> loop_state \<Rightarrow> pystr \<Rightarrow> loop_state canvas_result" where
  "process_line R st line =
     (if skip_header st then
        (if contains objetivo_marker line \<or> contains (u ''## Objetivo'') line
         then body_line R (st\<lparr>skip_header := False\<rparr>) line
         else Inr st)
      else body_line R st line)"

fun process_lines :: "raising \<Rightarrow> loop_state \<Rightarrow> pystr list \<Rightarrow> loop_state canvas_result" where
  "process_lines R st [] = Inr st"
| "process_lines R st (line # rest) =
     (case process_line R st line of
        Inl e \<Rightarrow> Inl e
      | Inr st' \<Rightarrow> process_lines R st' rest)"

definition referencias :: "pystr list" where
  "referencias =
     [u ''Chomsky, N. (1959). On certain formal properties of grammars. '' @
        u ''Information and Control, 2(2), 137-167.'',
      [],
      u ''Hopcroft, J. E., & Ullman, J. D. (1979). Introduction to automata '' @
        u ''theory, languages, and computation. Addison-Wesley.'',
      [],
      u ''Python Software Foundation. (2024). The Python Language Reference. '' @
        u ''https://docs.python.org/3/reference/'',
      [],
      u ''Sipser, M. (2013). Introduction to the theory of computation '' @
        u ''(3ra ed.). Cengage Learning.'',
      [],
      u ''Van Rossum, G., & Drake, F. L. (2021). Python Language Reference '' @
        u ''Manual (PEP 617). Python Software Foundation.'']"

definition references_section :: "canvas_call list" where
  "references_section =
     [AddPage,
      SetFont (u ''Times'') (u ''B'') 14,
      Cell 0 10 (u ''Referencias'') 0 1 (u ''C''),
      Ln (Some 5),
      SetFont (u ''Times'') [] 12] @
     map (\<lambda>ref. if ref \<noteq> [] then MultiCell 0 10 ref 0 (u ''J'') False else Ln (Some 5)) referencias"

text \<open>
  \<open>create_apa_pdf\<close>, from the text read from the input file on; the result is the log of
  the canvas after \<open>pdf.output\<close>. An exception leaves the function: the caller prints
  it and exits with status 1. The closing \<open>print\<close> statements are left out.
\<close>

definition canvas_error :: "'a canvas_result \<Rightarrow> py_error + 'a" where
  "canvas_error r = (case r of Inl (c, log) \<Rightarrow> Inl (CanvasError c) | Inr x \<Rightarrow> Inr x)"

definition create_apa_pdf :: "raising \<Rightarrow> pystr \<Rightarrow> pystr \<Rightarrow> py_error + canvas_call list" where
  "create_apa_pdf R content output_file =
     (case process_document content of
        Inl e \<Rightarrow> Inl e
      | Inr (m, lines) \<Rightarrow>
          canvas_error
            (case emits R (title_page m) [] of
               Inl e \<Rightarrow> Inl e
             | Inr log1 \<Rightarrow>
                 (case emits R abstract_page (log1 @ [SetPageNumStarted]) of
                    Inl e \<Rightarrow> Inl e
                  | Inr log2 \<Rightarrow>
                      (case process_lines R (initial_state log2) lines of
                         Inl e \<Rightarrow> Inl e
                       | Inr st \<Rightarrow> emits R (references_section @ [Output output_file]) (pdf st)))))"

section \<open>Notions used in the statements\<close>

text \<open>
  The field a line is labelled for, with the value the line gives it: the conditions of the
  \<open>if\<close>/\<open>elif\<close> chain of the metadata loop, in its order.
\<close>

datatype field = Title | Author | StudentId | Course | Date

fun get_field :: "metadata \<Rightarrow> field \<Rightarrow> pystr" where
  "get_field m Title = title m"
| "get_field m Author = author m"
| "get_field m StudentId = student_id m"
| "get_field m Course = course m"
| "get_field m Date = date m"

fun put_field :: "field \<Rightarrow> pystr \<Rightarrow> metadata \<Rightarrow> metadata" where
  "put_field Title v m = m\<lparr>title := v\<rparr>"
| "put_field Author v m = m\<lparr>author := v\<rparr>"
| "put_field StudentId v m = m\<lparr>student_id := v\<rparr>"
| "put_field Course v m = m\<lparr>course := v\<rparr>"
| "put_field Date v m = m\<lparr>date := v\<rparr>"

definition labelled :: "pystr \<Rightarrow> pystr \<Rightarrow> (field \<times> pystr) option" where
  "labelled clave line =
     (if startswith line (u ''# '') then Some (Title, strip (replace line (u ''# '') []))
      else if contains (u ''**Estudiante:**'') line then
        Some (Author, strip (split line (u ''**Estudiante:**'') ! 1))
      else if contains clave line then Some (StudentId, strip (split line clave ! 1))
      else if contains (u ''**Materia:**'') line then
        Some (Course, strip (split line (u ''**Materia:**'') ! 1))
      else if contains (u ''**Fecha:**'') line then
        Some (Date, strip (split line (u ''**Fecha:**'') ! 1))
      else None)"

text \<open>
  A raw body line is a fence when, after the glyph class is deleted and the line is stripped, it
  starts with three backticks: the test \<open>line.strip().startswith("```")\<close> of the body loop.
\<close>

definition is_fence :: "pystr \<Rightarrow> bool" where
  "is_fence raw = startswith (strip (clean_emojis raw)) (u ''```'')"


text \<open>
  The two table tests of the body loop, on the line with the glyph class deleted: a separator
  line has a pipe and three dashes, a row line has a pipe, no three dashes, and is no fence.
\<close>

definition is_separator :: "pystr \<Rightarrow> bool" where
  "is_separator raw =
     (contains (u ''|'') (clean_emojis raw) \<and> contains (u ''---'') (clean_emojis raw))"


text \<open>
  The canvas calls of the heading, rule and paragraph chain for one line, on a canvas that never
  raises, and the lines that reach the paragraph branch of that chain.
\<close>

definition block_calls :: "pystr \<Rightarrow> canvas_call list" where
  "block_calls line = (case draw_block never line [] of Inl e \<Rightarrow> [] | Inr calls \<Rightarrow> calls)"

definition is_paragraph :: "pystr \<Rightarrow> bool" where
  "is_paragraph line =
     (\<not> startswith line (u ''## '') \<and> \<not> startswith line (u ''### '') \<and>
      \<not> startswith line (u ''#### '') \<and> \<not> startswith line (u ''---'') \<and> strip line \<noteq> [])"

text \<open>
  The number of \<open>**\<close> delimiters that \<open>split\<close> finds in a line, and the pieces between
  them with the font the loop selects for each: piece \<open>j\<close> is bold when \<open>j\<close> is odd.
\<close>

definition delimiters :: "pystr \<Rightarrow> nat" where
  "delimiters text = length (split text (u ''**'')) - 1"

definition spans :: "pystr \<Rightarrow> (bool \<times> pystr) list" where
  "spans text = map (\<lambda>(j, part). (j mod 2 = 1, part)) (enumerate 0 (split text (u ''**'')))"



text \<open>
  A line is skipped while the marker has not been seen, unless it carries the marker itself;
  the marker is looked for in the line as read, before its glyphs are deleted.
\<close>

definition skipped :: "loop_state \<Rightarrow> pystr \<Rightarrow> bool" where
  "skipped st raw \<longleftrightarrow>
     skip_header st \<and> \<not> contains objetivo_marker raw \<and> \<not> contains (u ''## Objetivo'') raw"

text \<open>
  The lines that get as far as the heading tests of the loop body: not skipped, read outside
  a code block, no fence, no table separator, and no row of a table that is open.
\<close>

definition reaches_blocks :: "loop_state \<Rightarrow> pystr \<Rightarrow> bool" where
  "reaches_blocks st raw \<longleftrightarrow>
     \<not> skipped st raw \<and> \<not> in_code_block st \<and> \<not> is_fence raw \<and> \<not> is_separator raw \<and>
     \<not> (in_table st \<and> contains (u ''|'') (clean_emojis raw))"

text \<open>
  What such a line finds and leaves: the rows buffered for a table that is still open, the
  calls that draw them, and the state after the line, with the table closed and its buffer
  emptied.
\<close>

definition pending_rows :: "loop_state \<Rightarrow> pystr list" where
  "pending_rows st = (if in_table st then table_data st else [])"

definition table_calls :: "pystr list \<Rightarrow> canvas_call list" where
  "table_calls rows =
     (if rows = [] then [] else SetFont (u ''Times'') [] 10 # concat (map draw_row (take 5 rows)))"

definition after_block :: "loop_state \<Rightarrow> canvas_call list \<Rightarrow> loop_state" where
  "after_block st log =
     st\<lparr>skip_header := False, in_table := False,
        table_data := (if in_table st then [] else table_data st), pdf := log\<rparr>"

text \<open>The calls of a closing fence for the buffered code lines.\<close>

definition code_calls :: "pystr list \<Rightarrow> canvas_call list" where
  "code_calls buf =
     (if buf = [] then []
      else [SetFont (u ''Courier'') [] 10, SetFillColor 245 245 245] @
           map (\<lambda>code_line. MultiCell 0 5 (take 70 code_line) 0 (u ''L'') True) buf @
           [SetFillColor 255 255 255])"

section \<open>Strings\<close>

lemma split_not_Nil: "split s sep \<noteq> []"
  by (induction s sep rule: split.induct) (auto split: list.splits)

lemma split_length_ge2: "sep \<noteq> [] \<Longrightarrow> contains sep s \<Longrightarrow> 2 \<le> length (split s sep)"
proof (induction s sep rule: split.induct)
  case (1 sep)
  then show ?case by simp
next
  case (2 c cs sep)
  show ?case
  proof (cases "startswith (c # cs) sep")
    case True
    have "split (drop (length sep) (c # cs)) sep \<noteq> []" by (rule split_not_Nil)
    then have "1 \<le> length (split (drop (length sep) (c # cs)) sep)"
      by (cases "split (drop (length sep) (c # cs)) sep") auto
    with True 2(3) show ?thesis by simp
  next
    case False
    with 2(4) have "contains sep cs" by simp
    with 2(2,3) False have "2 \<le> length (split cs sep)" by simp
    with False show ?thesis by (auto split: list.splits)
  qed
qed

lemma item_split:
  "sep \<noteq> [] \<Longrightarrow> contains sep s \<Longrightarrow> item (split s sep) (Suc 0) = Inr (split s sep ! Suc 0)"
  using split_length_ge2 [of sep s] by (simp add: item_def)

lemma u_not_Nil: "u (c # cs) \<noteq> []"
  by (simp add: u_def)

lemma scan_line_labelled:
  "clave \<noteq> [] \<Longrightarrow>
   scan_line clave m line =
     Inr (case labelled clave line of None \<Rightarrow> m | Some (f, v) \<Rightarrow> put_field f v m)"
  by (simp add: scan_line_def labelled_def item_split u_not_Nil)

lemma scan_lines_append:
  "scan_lines clave m (xs @ ys) =
     (case scan_lines clave m xs of Inl e \<Rightarrow> Inl e | Inr m' \<Rightarrow> scan_lines clave m' ys)"
  by (induction xs arbitrary: m) (auto split: sum.splits)

lemma scan_lines_total: "clave \<noteq> [] \<Longrightarrow> \<exists>m'. scan_lines clave m ls = Inr m'"
  by (induction ls arbitrary: m) (auto simp: scan_line_labelled)

lemma get_put_other: "f \<noteq> g \<Longrightarrow> get_field (put_field g v m) f = get_field m f"
  by (cases f; cases g) auto

lemma get_put_same: "get_field (put_field f v m) f = v"
  by (cases f) auto

lemma scan_lines_keeps:
  "clave \<noteq> [] \<Longrightarrow> \<forall>l \<in> set ls. map_option fst (labelled clave l) \<noteq> Some f \<Longrightarrow>
   scan_lines clave m ls = Inr m' \<Longrightarrow> get_field m' f = get_field m f"
proof (induction ls arbitrary: m)
  case Nil
  then show ?case by simp
next
  case (Cons l ls)
  let ?m1 = "case labelled clave l of None \<Rightarrow> m | Some (g, v) \<Rightarrow> put_field g v m"
  from Cons.prems have step: "scan_lines clave ?m1 ls = Inr m'"
    by (simp add: scan_line_labelled)
  from Cons.prems have "map_option fst (labelled clave l) \<noteq> Some f" by simp
  then have "get_field ?m1 f = get_field m f"
    by (auto split: option.splits simp: get_put_other)
  moreover have "get_field m' f = get_field ?m1 f"
    using Cons.IH [OF Cons.prems(1) _ step] Cons.prems(2) by simp
  ultimately show ?case by simp
qed

lemma scan_lines_last:
  assumes "clave \<noteq> []" and "labelled clave l = Some (f, v)"
    and "\<forall>l' \<in> set ys. map_option fst (labelled clave l') \<noteq> Some f"
  shows "\<exists>m'. scan_lines clave m (xs @ l # ys) = Inr m' \<and> get_field m' f = v"
proof -
  obtain m1 where m1: "scan_lines clave m xs = Inr m1"
    using scan_lines_total [OF assms(1)] by blast
  obtain m2 where m2: "scan_lines clave (put_field f v m1) ys = Inr m2"
    using scan_lines_total [OF assms(1)] by blast
  have "scan_lines clave m (xs @ l # ys) = Inr m2"
    using m1 m2 assms(1,2) by (simp add: scan_lines_append scan_line_labelled)
  moreover have "get_field m2 f = v"
    using scan_lines_keeps [OF assms(1) assms(3) m2] by (simp add: get_put_same)
  ultimately show ?thesis by blast
qed


text \<open>
  Claim C1, amended. The metadata loop assigns a field at every line labelled for it, so the
  last such line decides: when a line of the scanned part of the document is labelled for a
  field and no later scanned line is labelled for the same field, the extracted field is the
  value of that line, whatever earlier lines gave. The HTML/CSS converter scans all lines of
  the document, the direct-layout converter the first ten lines of the cleaned text.
\<close>

theorem metadata_last_match_wins:
  "(split content (u ''\<newline>'') = xs @ l # ys \<longrightarrow>
    labelled clave_accented l = Some (f, v) \<longrightarrow>
    (\<forall>l' \<in> set ys. map_option fst (labelled clave_accented l') \<noteq> Some f) \<longrightarrow>
    (\<exists>m. scan_lines clave_accented empty_metadata (split content (u ''\<newline>'')) = Inr m \<and>
         get_field m f = v \<and>
         process_markdown_for_apa content =
           Inr (apa_content m @
                join (u ''\<newline>'') (transform_lines True (split content (u ''\<newline>'')))))) \<and>
   (take 10 (split (clean_text content) (u ''\<newline>'')) = xs @ l # ys \<longrightarrow>
    labelled clave_plain l = Some (f, v) \<longrightarrow>
    (\<forall>l' \<in> set ys. map_option fst (labelled clave_plain l') \<noteq> Some f) \<longrightarrow>
    (\<exists>m. process_document content = Inr (m, split (clean_text content) (u ''\<newline>'')) \<and>
         get_field m f = v))"
proof (intro conjI impI)
  assume lines: "split content (u ''\<newline>'') = xs @ l # ys"
    and lab: "labelled clave_accented l = Some (f, v)"
    and later: "\<forall>l' \<in> set ys. map_option fst (labelled clave_accented l') \<noteq> Some f"
  have ne: "clave_accented \<noteq> []" by (simp add: clave_accented_def)
  obtain m where m: "scan_lines clave_accented empty_metadata (xs @ l # ys) = Inr m"
    and g: "get_field m f = v"
    using scan_lines_last [OF ne lab later] by blast
  show "\<exists>m. scan_lines clave_accented empty_metadata (split content (u ''\<newline>'')) = Inr m \<and>
         get_field m f = v \<and>
         process_markdown_for_apa content =
           Inr (apa_content m @
                join (u ''\<newline>'') (transform_lines True (split content (u ''\<newline>''))))"
    using m g lines by (simp add: process_markdown_for_apa_def)
next
  assume lines: "take 10 (split (clean_text content) (u ''\<newline>'')) = xs @ l # ys"
    and lab: "labelled clave_plain l = Some (f, v)"
    and later: "\<forall>l' \<in> set ys. map_option fst (labelled clave_plain l') \<noteq> Some f"
  have ne: "clave_plain \<noteq> []" by (simp add: clave_plain_def u_not_Nil)
  obtain m where m: "scan_lines clave_plain empty_metadata (xs @ l # ys) = Inr m"
    and g: "get_field m f = v"
    using scan_lines_last [OF ne lab later] by blast
  show "\<exists>m. process_document content = Inr (m, split (clean_text content) (u ''\<newline>'')) \<and>
         get_field m f = v"
    using m g lines by (simp add: process_document_def)
qed

lemmas eval_str = u_def startswith_def strip_def isspace_def replace_def item_def

lemma clean_text_ascii_example: "clean_text (u ''# A\<newline># B'') = u ''# A\<newline># B''"
  by (simp add: clean_text_def replacements_def eval_str)

theorem metadata_last_match_wins_witness:
  "split (u ''# A\<newline># B'') (u ''\<newline>'') = [u ''# A''] @ u ''# B'' # [] \<and>
   take 10 (split (clean_text (u ''# A\<newline># B'')) (u ''\<newline>'')) = [u ''# A''] @ u ''# B'' # [] \<and>
   labelled clave_accented (u ''# B'') = Some (Title, u ''B'') \<and>
   labelled clave_plain (u ''# B'') = Some (Title, u ''B'') \<and>
   (\<exists>m. scan_lines clave_accented empty_metadata (split (u ''# A\<newline># B'') (u ''\<newline>'')) = Inr m \<and>
        get_field m Title = u ''B'') \<and>
   (\<exists>m. process_document (u ''# A\<newline># B'') =
          Inr (m, split (clean_text (u ''# A\<newline># B'')) (u ''\<newline>'')) \<and>
        get_field m Title = u ''B'')"
proof -
  have a: "split (u ''# A\<newline># B'') (u ''\<newline>'') = [u ''# A''] @ u ''# B'' # []"
    by (simp add: eval_str)
  have b: "take 10 (split (clean_text (u ''# A\<newline># B'')) (u ''\<newline>'')) = [u ''# A''] @ u ''# B'' # []"
    by (simp add: clean_text_ascii_example) (simp add: eval_str)
  have c: "labelled clave_accented (u ''# B'') = Some (Title, u ''B'')"
    by (simp add: labelled_def eval_str)
  have d: "labelled clave_plain (u ''# B'') = Some (Title, u ''B'')"
    by (simp add: labelled_def eval_str)
  have e: "\<forall>l' \<in> set []. map_option fst (labelled clave l') \<noteq> Some Title" for clave
    by simp
  show ?thesis
    using metadata_last_match_wins [of "u ''# A\<newline># B''" "[u ''# A'']" "u ''# B''" "[]" Title "u ''B''"]
      a b c d e by blast
qed

text \<open>
  With two title lines both converters keep the second title, not the first.
\<close>

theorem metadata_first_match_counterexample:
  "scan_lines clave_accented empty_metadata (split (u ''# A\<newline># B'') (u ''\<newline>'')) =
     Inr (empty_metadata\<lparr>title := u ''B''\<rparr>) \<and>
   process_document (u ''# A\<newline># B'') =
     Inr (empty_metadata\<lparr>title := u ''B''\<rparr>, [u ''# A'', u ''# B'']) \<and>
   labelled clave_accented (u ''# A'') = Some (Title, u ''A'') \<and>
   labelled clave_plain (u ''# A'') = Some (Title, u ''A'') \<and>
   u ''B'' \<noteq> u ''A''"
  by (simp add: process_document_def clean_text_ascii_example)
     (simp add: labelled_def scan_line_def empty_metadata_def eval_str)

section \<open>The student-id label\<close>

lemma startswith_iff: "startswith s p \<longleftrightarrow> (\<exists>b. s = p @ b)"
proof
  assume "startswith s p"
  then have "s = p @ drop (length p) s"
    unfolding startswith_def by (metis append_take_drop_id)
  then show "\<exists>b. s = p @ b" ..
next
  assume "\<exists>b. s = p @ b"
  then show "startswith s p" by (auto simp: startswith_def)
qed

lemma contains_iff: "contains p s \<longleftrightarrow> (\<exists>a b. s = a @ p @ b)"
proof (induction s)
  case Nil
  then show ?case by auto
next
  case (Cons c cs)
  show ?case
  proof
    assume "contains p (c # cs)"
    then consider "startswith (c # cs) p" | "contains p cs" by auto
    then show "\<exists>a b. c # cs = a @ p @ b"
    proof cases
      case 1
      then obtain b where "c # cs = p @ b" by (auto simp: startswith_iff)
      then have "c # cs = [] @ p @ b" by simp
      then show ?thesis by blast
    next
      case 2
      with Cons.IH obtain a b where "cs = a @ p @ b" by blast
      then have "c # cs = (c # a) @ p @ b" by simp
      then show ?thesis by blast
    qed
  next
    assume "\<exists>a b. c # cs = a @ p @ b"
    then obtain a b where ab: "c # cs = a @ p @ b" by blast
    show "contains p (c # cs)"
    proof (cases a)
      case Nil
      with ab have "startswith (c # cs) p" by (auto simp: startswith_iff)
      then show ?thesis by simp
    next
      case (Cons a0 a')
      with ab have "cs = a' @ p @ b" by simp
      with Cons.IH have "contains p cs" by blast
      then show ?thesis by simp
    qed
  qed
qed

lemma replace_ne_single:
  "replace_ne s [k] new = concat (map (\<lambda>c. if c = k then new else [c]) s)"
  by (induction s) (auto simp: startswith_def)

lemma replace_single_append:
  "replace (a @ b) [k] new = replace a [k] new @ replace b [k] new"
  by (simp add: replace_def replace_ne_single)

lemma replace_single_set: "set (replace s [k] new) \<subseteq> set s \<union> set new"
  by (auto simp: replace_def replace_ne_single split: if_splits)

lemma foldl_replace_append:
  "foldl (\<lambda>t (old, new). replace t [old] new) (a @ b) rs =
     foldl (\<lambda>t (old, new). replace t [old] new) a rs @
     foldl (\<lambda>t (old, new). replace t [old] new) b rs"
  by (induction rs arbitrary: a b) (auto simp: replace_single_append)

lemma foldl_replace_set:
  "set (foldl (\<lambda>t (old, new). replace t [old] new) t rs) \<subseteq> set t \<union> (\<Union>r \<in> set rs. set (snd r))"
proof (induction rs arbitrary: t)
  case Nil
  then show ?case by simp
next
  case (Cons r rs)
  obtain old new where r: "r = (old, new)" by (cases r)
  have "set (foldl (\<lambda>t (old, new). replace t [old] new) (replace t [old] new) rs)
          \<subseteq> set (replace t [old] new) \<union> (\<Union>r \<in> set rs. set (snd r))"
    by (rule Cons.IH)
  with replace_single_set [of t old new] show ?case
    by (auto simp: r)
qed

lemma clean_text_append: "clean_text (a @ b) = clean_text a @ clean_text b"
  by (simp add: clean_text_def foldl_replace_append)

lemma clean_text_Nil: "clean_text [] = []"
  using clean_text_append [of "[]" "[]"] by simp

lemma newline_not_in_replacements: "10 \<notin> (\<Union>r \<in> set replacements. set (snd r))"
  by (simp add: replacements_def u_def)

lemma clean_text_no_newline: "10 \<notin> set s \<Longrightarrow> 10 \<notin> set (clean_text s)"
  using foldl_replace_set [of s replacements] newline_not_in_replacements
  by (auto simp: clean_text_def)

lemma clean_text_newline: "clean_text [10] = [10]"
  by (simp add: clean_text_def replacements_def eval_str)

lemma clean_text_Cons: "clean_text (c # cs) = clean_text [c] @ clean_text cs"
  using clean_text_append [of "[c]" cs] by simp

lemma replace_single_absent: "k \<notin> set s \<Longrightarrow> replace s [k] new = s"
  by (induction s) (auto simp: replace_def startswith_def)

lemma foldl_replace_absent:
  "\<forall>r \<in> set rs. fst r \<notin> set s \<Longrightarrow> foldl (\<lambda>t (old, new). replace t [old] new) s rs = s"
  by (induction rs) (auto simp: replace_single_absent)

lemma clean_text_ascii: "\<forall>c \<in> set s. c < 128 \<Longrightarrow> clean_text s = s"
proof -
  assume ascii: "\<forall>c \<in> set s. c < 128"
  have "\<forall>r \<in> set replacements. 128 \<le> fst r"
    by (simp add: replacements_def)
  with ascii have "\<forall>r \<in> set replacements. fst r \<notin> set s"
    by (metis not_le)
  then show ?thesis
    by (simp add: clean_text_def foldl_replace_absent)
qed

lemma split_single_prepend:
  "k \<notin> set w \<Longrightarrow> split (w @ t) [k] = (case split t [k] of [] \<Rightarrow> [w] | p # ps \<Rightarrow> (w @ p) # ps)"
proof (induction w)
  case Nil
  then show ?case using split_not_Nil [of t "[k]"] by (auto split: list.splits)
next
  case (Cons c w)
  then show ?case using split_not_Nil [of t "[k]"]
    by (auto simp: startswith_def split: list.splits)
qed

lemma split_clean_text:
  "split (clean_text s) [10] = map clean_text (split s [10])"
proof (induction s)
  case Nil
  then show ?case by (simp add: clean_text_Nil)
next
  case (Cons c cs)
  show ?case
  proof (cases "c = 10")
    case True
    have "clean_text (c # cs) = 10 # clean_text cs"
      using clean_text_Cons [of c cs] True by (simp add: clean_text_newline)
    with True Cons.IH show ?thesis by (simp add: startswith_def clean_text_Nil)
  next
    case False
    then have w: "10 \<notin> set (clean_text [c])" by (intro clean_text_no_newline) simp
    obtain p ps where sp: "split cs [10] = p # ps"
      using split_not_Nil [of cs "[10]"] by (cases "split cs [10]") auto
    have "split (clean_text (c # cs)) [10] = (clean_text [c] @ clean_text p) # map clean_text ps"
      using split_single_prepend [OF w, of "clean_text cs"] Cons.IH sp
      by (simp add: clean_text_Cons [of c cs])
    moreover have "split (c # cs) [10] = (c # p) # ps"
      using False sp by (simp add: startswith_def)
    ultimately show ?thesis by (simp add: clean_text_Cons [of c p])
  qed
qed

lemma clean_text_clave_accented: "clean_text clave_accented = clave_plain"
  by (simp add: clean_text_def replacements_def clave_accented_def clave_plain_def eval_str)

lemma clean_text_clave_plain: "clean_text clave_plain = clave_plain"
  by (simp add: clean_text_def replacements_def clave_plain_def eval_str)

lemma clean_text_contains_clave:
  assumes "contains clave_accented l \<or> contains clave_plain l"
  shows "contains clave_plain (clean_text l)"
proof -
  from assms obtain a b lab where l: "l = a @ lab @ b" and lab: "clean_text lab = clave_plain"
    using clean_text_clave_accented clean_text_clave_plain by (auto simp: contains_iff)
  have "clean_text l = clean_text a @ clave_plain @ clean_text b"
    by (simp add: l clean_text_append lab)
  then show ?thesis unfolding contains_iff by blast
qed

lemma u_newline: "u ''\<newline>'' = [10]"
  by (simp add: u_def)

lemma labelled_student_id:
  assumes "clave \<noteq> []" and "contains clave l" and "\<not> startswith l (u ''# '')"
    and "\<not> contains (u ''**Estudiante:**'') l"
  shows "labelled clave l = Some (StudentId, strip (split l clave ! 1))"
  using assms by (simp add: labelled_def)

lemma labelled_no_clave:
  "\<not> contains clave l \<Longrightarrow> map_option fst (labelled clave l) \<noteq> Some StudentId"
  by (simp add: labelled_def)

text \<open>
  Claim C7, amended. The direct-layout converter accepts both spellings of the student-id
  label, because \<open>clean_text\<close> has replaced U+00DA by \<open>U\<close> before the labels are
  tested: a line among the first ten that carries either spelling, whose cleaned text neither
  begins with \<open>#\<close> and a space nor carries the Estudiante label, and after which none of
  the first ten lines is labelled for the student id again, gives \<open>student_id\<close> the
  stripped text that follows the label in the cleaned line. The HTML/CSS converter tests the
  accented spelling only: such a line gives \<open>student_id\<close> its value, and a document
  without the accented label leaves \<open>student_id\<close> empty, whatever else it carries.
\<close>

theorem student_id_label_spellings:
  "(split content (u ''\<newline>'') = xs @ l # ys \<longrightarrow> length xs < 10 \<longrightarrow>
    (contains clave_accented l \<or> contains clave_plain l) \<longrightarrow>
    \<not> startswith (clean_text l) (u ''# '') \<longrightarrow>
    \<not> contains (u ''**Estudiante:**'') (clean_text l) \<longrightarrow>
    (\<forall>l' \<in> set (take (9 - length xs) ys).
        map_option fst (labelled clave_plain (clean_text l')) \<noteq> Some StudentId) \<longrightarrow>
    (\<exists>m. process_document content = Inr (m, map clean_text (split content (u ''\<newline>''))) \<and>
         student_id m = strip (split (clean_text l) clave_plain ! 1))) \<and>
   (split content2 (u ''\<newline>'') = xs2 @ l2 # ys2 \<longrightarrow>
    contains clave_accented l2 \<longrightarrow>
    \<not> startswith l2 (u ''# '') \<longrightarrow>
    \<not> contains (u ''**Estudiante:**'') l2 \<longrightarrow>
    (\<forall>l' \<in> set ys2. map_option fst (labelled clave_accented l') \<noteq> Some StudentId) \<longrightarrow>
    (\<exists>m. scan_lines clave_accented empty_metadata (split content2 (u ''\<newline>'')) = Inr m \<and>
         student_id m = strip (split l2 clave_accented ! 1))) \<and>
   ((\<forall>l' \<in> set (split content3 (u ''\<newline>'')). \<not> contains clave_accented l') \<longrightarrow>
    (\<exists>m. scan_lines clave_accented empty_metadata (split content3 (u ''\<newline>'')) = Inr m \<and>
         student_id m = []))"
proof (intro conjI impI)
  assume lines: "split content (u ''\<newline>'') = xs @ l # ys" and short: "length xs < 10"
    and lab: "contains clave_accented l \<or> contains clave_plain l"
    and nt: "\<not> startswith (clean_text l) (u ''# '')"
    and ne: "\<not> contains (u ''**Estudiante:**'') (clean_text l)"
    and later: "\<forall>l' \<in> set (take (9 - length xs) ys).
        map_option fst (labelled clave_plain (clean_text l')) \<noteq> Some StudentId"
  have cp: "clave_plain \<noteq> []" by (simp add: clave_plain_def u_not_Nil)
  have cleaned: "split (clean_text content) (u ''\<newline>'') = map clean_text (xs @ l # ys)"
    using lines split_clean_text [of content] by (simp add: u_newline)
  have ten: "take 10 (map clean_text (xs @ l # ys)) =
      map clean_text xs @ clean_text l # map clean_text (take (9 - length xs) ys)"
    using short by (simp add: take_Cons' take_map)
  have l: "labelled clave_plain (clean_text l) =
      Some (StudentId, strip (split (clean_text l) clave_plain ! 1))"
    using labelled_student_id [OF cp clean_text_contains_clave [OF lab] nt ne] .
  have later': "\<forall>l' \<in> set (map clean_text (take (9 - length xs) ys)).
      map_option fst (labelled clave_plain l') \<noteq> Some StudentId"
    using later by simp
  obtain m where m: "scan_lines clave_plain empty_metadata
        (map clean_text xs @ clean_text l # map clean_text (take (9 - length xs) ys)) = Inr m"
    and g: "get_field m StudentId = strip (split (clean_text l) clave_plain ! 1)"
    using scan_lines_last [OF cp l later'] by blast
  show "\<exists>m. process_document content = Inr (m, map clean_text (split content (u ''\<newline>''))) \<and>
         student_id m = strip (split (clean_text l) clave_plain ! 1)"
    using m g cleaned ten lines by (simp add: process_document_def)
next
  assume lines: "split content2 (u ''\<newline>'') = xs2 @ l2 # ys2"
    and lab: "contains clave_accented l2"
    and nt: "\<not> startswith l2 (u ''# '')"
    and ne: "\<not> contains (u ''**Estudiante:**'') l2"
    and later: "\<forall>l' \<in> set ys2. map_option fst (labelled clave_accented l') \<noteq> Some StudentId"
  have ca: "clave_accented \<noteq> []" by (simp add: clave_accented_def)
  obtain m where m: "scan_lines clave_accented empty_metadata (xs2 @ l2 # ys2) = Inr m"
    and g: "get_field m StudentId = strip (split l2 clave_accented ! 1)"
    using scan_lines_last [OF ca labelled_student_id [OF ca lab nt ne] later] by blast
  show "\<exists>m. scan_lines clave_accented empty_metadata (split content2 (u ''\<newline>'')) = Inr m \<and>
         student_id m = strip (split l2 clave_accented ! 1)"
    using m g lines by simp
next
  assume none: "\<forall>l' \<in> set (split content3 (u ''\<newline>'')). \<not> contains clave_accented l'"
  have ca: "clave_accented \<noteq> []" by (simp add: clave_accented_def)
  obtain m where m: "scan_lines clave_accented empty_metadata (split content3 (u ''\<newline>'')) = Inr m"
    using scan_lines_total [OF ca] by blast
  have "\<forall>l' \<in> set (split content3 (u ''\<newline>'')).
      map_option fst (labelled clave_accented l') \<noteq> Some StudentId"
    using none labelled_no_clave by blast
  from scan_lines_keeps [OF ca this m] have "student_id m = []"
    by (simp add: empty_metadata_def)
  with m show "\<exists>m. scan_lines clave_accented empty_metadata (split content3 (u ''\<newline>'')) = Inr m \<and>
         student_id m = []"
    by blast
qed

lemma clean_text_accented_example:
  "clean_text (clave_accented @ u '' 123'') = u ''**Clave Unica:** 123''"
  by (simp add: clean_text_def replacements_def clave_accented_def eval_str)

theorem student_id_label_spellings_witness:
  "contains clave_accented (clave_accented @ u '' 123'') \<and>
   (\<exists>m. process_document (clave_accented @ u '' 123'') =
          Inr (m, map clean_text (split (clave_accented @ u '' 123'') (u ''\<newline>''))) \<and>
        student_id m = u ''123'') \<and>
   (\<exists>m. scan_lines clave_accented empty_metadata
          (split (clave_accented @ u '' 123'') (u ''\<newline>'')) = Inr m \<and>
        student_id m = u ''123'') \<and>
   \<not> contains clave_accented (u ''**Clave Unica:** 123'') \<and>
   (\<exists>m. scan_lines clave_accented empty_metadata
          (split (u ''**Clave Unica:** 123'') (u ''\<newline>'')) = Inr m \<and>
        student_id m = [])"
proof -
  let ?doc = "clave_accented @ u '' 123''"
  let ?plain = "u ''**Clave Unica:** 123''"
  have h1: "split ?doc (u ''\<newline>'') = [] @ ?doc # []"
    by (simp add: clave_accented_def eval_str)
  have h2: "length ([] :: pystr list) < 10" by simp
  have h3: "contains clave_accented ?doc"
    by (simp add: clave_accented_def eval_str)
  have h4: "\<not> startswith (clean_text ?doc) (u ''# '')"
    by (simp add: clean_text_accented_example) (simp add: eval_str)
  have h5: "\<not> contains (u ''**Estudiante:**'') (clean_text ?doc)"
    by (simp add: clean_text_accented_example) (simp add: eval_str)
  have h6: "\<forall>l' \<in> set (take (9 - length ([] :: pystr list)) []).
      map_option fst (labelled clave_plain (clean_text l')) \<noteq> Some StudentId"
    by simp
  have h7: "\<not> startswith ?doc (u ''# '')"
    by (simp add: clave_accented_def eval_str)
  have h8: "\<not> contains (u ''**Estudiante:**'') ?doc"
    by (simp add: clave_accented_def eval_str)
  have h9: "\<forall>l' \<in> set []. map_option fst (labelled clave_accented l') \<noteq> Some StudentId"
    by simp
  have h10: "\<forall>l' \<in> set (split ?plain (u ''\<newline>'')). \<not> contains clave_accented l'"
    by (simp add: clave_accented_def eval_str)
  have v1: "strip (split (clean_text ?doc) clave_plain ! 1) = u ''123''"
    by (simp add: clean_text_accented_example) (simp add: clave_plain_def eval_str)
  have v2: "strip (split ?doc clave_accented ! 1) = u ''123''"
    by (simp add: clave_accented_def eval_str)
  note inst = student_id_label_spellings [where content = ?doc and xs = "[]" and l = ?doc
      and ys = "[]" and ?content2.0 = ?doc and ?xs2.0 = "[]" and ?l2.0 = ?doc and ?ys2.0 = "[]"
      and ?content3.0 = ?plain]
  from inst h1 h2 h3 h4 h5 h6 have a: "\<exists>m. process_document ?doc =
          Inr (m, map clean_text (split ?doc (u ''\<newline>''))) \<and>
        student_id m = strip (split (clean_text ?doc) clave_plain ! 1)"
    by blast
  from inst h1 h3 h7 h8 h9 have b: "\<exists>m. scan_lines clave_accented empty_metadata
          (split ?doc (u ''\<newline>'')) = Inr m \<and>
        student_id m = strip (split ?doc clave_accented ! 1)"
    by blast
  from inst h10 have c: "\<exists>m. scan_lines clave_accented empty_metadata
          (split ?plain (u ''\<newline>'')) = Inr m \<and> student_id m = []"
    by blast
  have h11: "\<not> contains clave_accented (u ''**Clave Unica:** 123'')"
    by (simp add: clave_accented_def eval_str)
  from a b c h3 h11 show ?thesis unfolding v1 v2 by blast
qed

text \<open>
  A document whose student-id line is spelled without the accent: the direct-layout
  converter extracts the id, the metadata loop of the HTML/CSS converter leaves every field
  empty.
\<close>

theorem unaccented_label_counterexample:
  "contains clave_plain (u ''**Clave Unica:** 123'') \<and>
   scan_lines clave_accented empty_metadata
     (split (u ''**Clave Unica:** 123'') (u ''\<newline>'')) = Inr empty_metadata \<and>
   student_id empty_metadata = [] \<and>
   process_document (u ''**Clave Unica:** 123'') =
     Inr (empty_metadata\<lparr>student_id := u ''123''\<rparr>, [u ''**Clave Unica:** 123''])"
proof -
  have c: "clean_text (u ''**Clave Unica:** 123'') = u ''**Clave Unica:** 123''"
    by (simp add: clean_text_def replacements_def eval_str)
  show ?thesis
    by (simp add: process_document_def c)
       (simp add: scan_line_def empty_metadata_def clave_accented_def clave_plain_def eval_str)
qed

section \<open>The body loop of the direct-layout converter\<close>

lemma emit_never: "emit never c log = Inr (log @ [c])"
  by (simp add: emit_def never_def)

lemma emits_never: "emits never cs log = Inr (log @ cs)"
  by (induction cs arbitrary: log) (simp_all add: emit_never)

lemma emits_Inr: "emits R cs log = Inr log' \<Longrightarrow> log' = log @ cs"
proof (induction cs arbitrary: log)
  case Nil
  then show ?case by simp
next
  case (Cons c cs)
  from Cons.prems have "emits R cs (log @ [c]) = Inr log'"
    by (auto simp: emit_def split: if_splits)
  from Cons.IH [OF this] show ?case by simp
qed






lemmas eval_layout = process_line_def body_line_def table_or_block_def draw_block_def
  draw_plain_def draw_inline_def indent_def chunks_def draw_table_def draw_row_def
  row_cells_def draw_code_buffer_def clean_line_def clean_emojis_def emoji_class_def
  emit_def except_pass_def never_def initial_state_def objetivo_marker_def is_fence_def


section \<open>Code blocks\<close>





lemma clean_line_take: "clean_line l = take 70 l"
  by (simp add: clean_line_def)

lemma foldl_code_lines_never:
  "foldl (\<lambda>l code_line. except_pass (emit never (MultiCell 0 5 (clean_line code_line) 0 (u ''L'') True) l))
         log buf =
   log @ map (\<lambda>code_line. MultiCell 0 5 (take 70 code_line) 0 (u ''L'') True) buf"
  by (induction buf arbitrary: log) (simp_all add: emit_never except_pass_def clean_line_take)

lemma draw_code_buffer_never:
  "draw_code_buffer never buf log =
     Inr (log @ (if buf = [] then []
                 else [SetFont (u ''Courier'') [] 10, SetFillColor 245 245 245] @
                      map (\<lambda>code_line. MultiCell 0 5 (take 70 code_line) 0 (u ''L'') True) buf @
                      [SetFillColor 255 255 255]))"
  unfolding draw_code_buffer_def foldl_code_lines_never by (simp add: emit_never)






lemma create_apa_pdf_never:
  assumes "process_document content = Inr (m, lines)"
    and "process_lines never (initial_state (title_page m @ SetPageNumStarted # abstract_page)) lines = Inr st"
  shows "create_apa_pdf never content output_file =
    Inr (pdf st @ references_section @ [Output output_file])"
  using assms by (simp add: create_apa_pdf_def emits_never canvas_error_def)


section \<open>Tables\<close>

lemma draw_plain_never:
  "draw_plain never line log =
     log @ (if length (indent line) > 200
            then map (\<lambda>chunk. MultiCell 0 10 chunk 0 (u ''L'') False)
                     (filter (\<lambda>chunk. strip chunk \<noteq> []) (chunks (indent line)))
            else [MultiCell 0 10 (indent line) 0 (u ''L'') False])"
  by (simp add: draw_plain_def Let_def emits_never emit_never except_pass_def)

lemma draw_block_never: "draw_block never line log = Inr (log @ block_calls line)"
  by (simp add: block_calls_def draw_block_def emits_never emit_never draw_plain_never)

lemma draw_table_never:
  "draw_table never rows log =
     Inr (log @ (if rows = [] then []
                 else SetFont (u ''Times'') [] 10 # concat (map draw_row (take 5 rows))))"
  by (simp add: draw_table_def emits_never emit_never)








section \<open>Lines that reach the heading tests\<close>

lemma draw_table_Nil: "draw_table R [] log = Inr log"
  by (simp add: draw_table_def)

lemma block_line:
  assumes "reaches_blocks st raw"
  shows "process_line R st raw =
    (case draw_table R (pending_rows st) (pdf st) of
       Inl e \<Rightarrow> Inl e
     | Inr log1 \<Rightarrow>
         (case draw_block R (clean_emojis raw) log1 of
            Inl e \<Rightarrow> Inl e
          | Inr log2 \<Rightarrow> Inr (after_block st log2)))"
  using assms
  by (cases st)
     (auto simp: reaches_blocks_def skipped_def process_line_def body_line_def table_or_block_def
        is_fence_def is_separator_def Let_def pending_rows_def after_block_def draw_table_Nil
        split: sum.splits)

lemma block_line_never:
  assumes "reaches_blocks st raw"
  shows "process_line never st raw =
    Inr (after_block st (pdf st @ table_calls (pending_rows st) @ block_calls (clean_emojis raw)))"
  by (simp add: block_line [OF assms] draw_table_never draw_block_never table_calls_def)

lemma skipped_line: "skipped st raw \<Longrightarrow> process_line R st raw = Inr st"
  by (simp add: skipped_def process_line_def)

lemma silent_line:
  assumes "\<not> reaches_blocks st raw" and "\<not> is_fence raw"
  shows "\<exists>st'. process_line R st raw = Inr st' \<and> pdf st' = pdf st"
  using assms
  by (auto simp: reaches_blocks_def skipped_def process_line_def body_line_def table_or_block_def
        is_fence_def is_separator_def Let_def)

lemma fence_line:
  assumes "is_fence raw" and "\<not> skipped st raw"
  shows "process_line never st raw =
    Inr (if in_code_block st
         then st\<lparr>skip_header := False, code_buffer := [], in_code_block := False,
                 pdf := pdf st @ code_calls (code_buffer st)\<rparr>
         else st\<lparr>skip_header := False, in_code_block := True, pdf := pdf st @ [Ln (Some 2)]\<rparr>)"
  using assms
  by (auto simp: skipped_def process_line_def body_line_def is_fence_def Let_def
        draw_code_buffer_never emit_never code_calls_def)

section \<open>Inline bold\<close>

lemma plain_line:
  "\<not> skip_header st \<Longrightarrow> \<not> in_code_block st \<Longrightarrow> \<not> in_table st \<Longrightarrow> \<not> is_fence raw \<Longrightarrow>
   \<not> is_separator raw \<Longrightarrow>
   process_line R st raw =
     (case draw_block R (clean_emojis raw) (pdf st) of
        Inl e \<Rightarrow> Inl e
      | Inr log \<Rightarrow> Inr (st\<lparr>pdf := log\<rparr>))"
  by (auto simp: process_line_def body_line_def table_or_block_def is_fence_def is_separator_def Let_def)

lemma draw_block_inline:
  "is_paragraph line \<Longrightarrow> contains (u ''**'') line \<Longrightarrow>
   draw_block R line log = emits R (draw_inline line) log"
  by (simp add: draw_block_def is_paragraph_def)

lemma draw_inline_spans:
  "draw_inline text =
     concat (map (\<lambda>(bold, part).
                    SetFont (u ''Times'') (if bold then u ''B'' else []) 12 #
                    (if part \<noteq> [] then [Write 10 part] else []))
                 (spans text)) @
     [Ln (Some 10)]"
proof -
  have "(\<lambda>(j, part). SetFont (u ''Times'') (if j mod 2 = 0 then [] else u ''B'') 12 #
                    (if part \<noteq> [] then [Write 10 part] else [])) =
        (\<lambda>(bold, part). SetFont (u ''Times'') (if bold then u ''B'' else []) 12 #
                    (if part \<noteq> [] then [Write 10 part] else [])) \<circ>
        (\<lambda>(j :: nat, part). (j mod 2 = 1, part))"
    by (auto simp: fun_eq_iff)
  then show ?thesis
    by (simp add: draw_inline_def spans_def)
qed

lemma map_snd_spans: "map snd (spans text) = split text (u ''**'')"
proof -
  have "snd \<circ> (\<lambda>(j :: nat, part :: pystr). (j mod 2 = 1, part)) = snd"
    by (auto simp: fun_eq_iff)
  then show ?thesis
    by (simp add: spans_def)
qed

lemma concat_split: "sep \<noteq> [] \<Longrightarrow> concat (split s sep) = replace s sep []"
proof (induction s sep rule: split.induct)
  case (1 sep)
  then show ?case by (simp add: replace_def)
next
  case (2 c cs sep)
  show ?case
  proof (cases "startswith (c # cs) sep")
    case True
    with 2 show ?thesis by (simp add: replace_def)
  next
    case False
    obtain p ps where sp: "split cs sep = p # ps"
      using split_not_Nil [of cs sep] by (cases "split cs sep") auto
    from 2(2) [OF _ 2(3)] False have "concat (split cs sep) = replace cs sep []" by simp
    with False sp 2(3) show ?thesis by (simp add: replace_def)
  qed
qed

lemma length_spans: "length (spans text) = length (split text (u ''**''))"
  by (simp add: spans_def)

lemma nth_spans:
  "i < length (split text (u ''**'')) \<Longrightarrow>
   spans text ! i = (i mod 2 = 1, split text (u ''**'') ! i)"
  by (simp add: spans_def nth_enumerate_eq)

lemma last_spans:
  assumes "odd (delimiters text)"
  shows "last (spans text) = (True, last (split text (u ''**'')))"
proof -
  let ?parts = "split text (u ''**'')"
  have ne: "?parts \<noteq> []" by (rule split_not_Nil)
  then have len: "length ?parts - 1 < length ?parts" by (cases ?parts) auto
  have sne: "spans text \<noteq> []"
    using ne length_spans [of "text"] by (cases "spans text") auto
  have "last (spans text) = spans text ! (length ?parts - 1)"
    using sne by (simp add: last_conv_nth length_spans)
  also have "\<dots> = ((length ?parts - 1) mod 2 = 1, ?parts ! (length ?parts - 1))"
    using len by (rule nth_spans)
  also have "\<dots> = (True, last ?parts)"
  proof -
    have "odd (length ?parts - 1)" using assms by (simp add: delimiters_def)
    then have "(length ?parts - 1) mod 2 = 1" by presburger
    then show ?thesis using ne by (simp add: last_conv_nth)
  qed
  finally show ?thesis .
qed

text \<open>
  Claim C4, amended. In the direct-layout converter a paragraph line with \<open>**\<close> is a
  line that is not skipped, is read outside a code block, is no fence, no table separator
  and no row of an open table, and that, once its glyphs are deleted, is no heading, no rule
  and not blank, and contains \<open>**\<close>. The rows of a table that is still open are drawn
  first. Then the line, glyphs deleted, is cut at every delimiter; the pieces are written in
  order, alternately plain and bold, the first one plain, and the delimiters themselves are
  not written: the pieces together are the line without its delimiters. Nothing in this
  raises; an error can only come from a canvas call. With an odd number of delimiters the
  last piece, the text after the unmatched delimiter, is therefore written in bold. For
  \<open>a **b\<close> the pieces are plain \<open>a\<close> with its space and bold \<open>b\<close>.
\<close>

theorem inline_bold_spans:
  assumes "reaches_blocks st raw"
    and "is_paragraph (clean_emojis raw)" and "contains (u ''**'') (clean_emojis raw)"
  shows "process_line R st raw =
      (case draw_table R (pending_rows st) (pdf st) of
         Inl e \<Rightarrow> Inl e
       | Inr log1 \<Rightarrow>
           (case emits R (draw_inline (clean_emojis raw)) log1 of
              Inl e \<Rightarrow> Inl e
            | Inr log \<Rightarrow> Inr (after_block st log))) \<and>
    process_line never st raw =
      Inr (after_block st
             (pdf st @ table_calls (pending_rows st) @ draw_inline (clean_emojis raw))) \<and>
    draw_inline (clean_emojis raw) =
      concat (map (\<lambda>(bold, part).
                     SetFont (u ''Times'') (if bold then u ''B'' else []) 12 #
                     (if part \<noteq> [] then [Write 10 part] else []))
                  (spans (clean_emojis raw))) @
      [Ln (Some 10)] \<and>
    concat (map snd (spans (clean_emojis raw))) = replace (clean_emojis raw) (u ''**'') [] \<and>
    (odd (delimiters (clean_emojis raw)) \<longrightarrow>
       last (spans (clean_emojis raw)) = (True, last (split (clean_emojis raw) (u ''**''))))"
proof -
  have a: "process_line R st raw =
      (case draw_table R (pending_rows st) (pdf st) of
         Inl e \<Rightarrow> Inl e
       | Inr log1 \<Rightarrow>
           (case emits R (draw_inline (clean_emojis raw)) log1 of
              Inl e \<Rightarrow> Inl e
            | Inr log \<Rightarrow> Inr (after_block st log)))" for R
    using assms by (simp add: block_line draw_block_inline cong: sum.case_cong)
  have b: "process_line never st raw =
      Inr (after_block st
             (pdf st @ table_calls (pending_rows st) @ draw_inline (clean_emojis raw)))"
    by (simp add: a emits_never draw_table_never table_calls_def)
  have c: "concat (map snd (spans (clean_emojis raw))) = replace (clean_emojis raw) (u ''**'') []"
    by (simp add: map_snd_spans concat_split u_not_Nil)
  show ?thesis
    using a b c draw_inline_spans last_spans by blast
qed

theorem inline_bold_spans_witness:
  "odd (delimiters (u ''a **b'')) \<and>
   spans (u ''a **b'') = [(False, u ''a ''), (True, u ''b'')] \<and>
   process_line never
     \<lparr>skip_header = False, in_code_block = False, code_buffer = [], in_table = False,
      table_data = [], pdf = []\<rparr> (u ''a **b'') =
   Inr \<lparr>skip_header = False, in_code_block = False, code_buffer = [], in_table = False,
        table_data = [],
        pdf = [SetFont (u ''Times'') [] 12, Write 10 (u ''a ''),
               SetFont (u ''Times'') (u ''B'') 12, Write 10 (u ''b''), Ln (Some 10)]\<rparr> \<and>
   process_line never
     \<lparr>skip_header = False, in_code_block = False, code_buffer = [], in_table = True,
      table_data = [u ''| c |''], pdf = []\<rparr> (u ''a **b'') =
   Inr \<lparr>skip_header = False, in_code_block = False, code_buffer = [], in_table = False,
        table_data = [],
        pdf = [SetFont (u ''Times'') [] 10, Cell 60 8 (u ''c'') 1 0 (u ''C''), Ln None,
               SetFont (u ''Times'') [] 12, Write 10 (u ''a ''),
               SetFont (u ''Times'') (u ''B'') 12, Write 10 (u ''b''), Ln (Some 10)]\<rparr>"
proof -
  let ?st = "\<lparr>skip_header = False, in_code_block = False, code_buffer = [], in_table = False,
      table_data = [], pdf = []\<rparr>"
  let ?tb = "\<lparr>skip_header = False, in_code_block = False, code_buffer = [], in_table = True,
      table_data = [u ''| c |''], pdf = []\<rparr>"
  have e: "clean_emojis (u ''a **b'') = u ''a **b''"
    by (simp add: clean_emojis_def emoji_class_def eval_str)
  have h4: "\<not> is_fence (u ''a **b'')"
    by (simp add: is_fence_def clean_emojis_def emoji_class_def eval_str)
  have h5: "\<not> is_separator (u ''a **b'')"
    by (simp add: is_separator_def clean_emojis_def emoji_class_def eval_str)
  have np: "\<not> contains (u ''|'') (clean_emojis (u ''a **b''))"
    unfolding e by (simp add: eval_str)
  have r1: "reaches_blocks ?st (u ''a **b'')"
    using h4 h5 by (simp add: reaches_blocks_def skipped_def)
  have r2: "reaches_blocks ?tb (u ''a **b'')"
    using h4 h5 np by (simp add: reaches_blocks_def skipped_def)
  have h6: "is_paragraph (clean_emojis (u ''a **b''))"
    unfolding e by (simp add: is_paragraph_def eval_str)
  have h7: "contains (u ''**'') (clean_emojis (u ''a **b''))"
    unfolding e by (simp add: eval_str)
  have sp: "spans (u ''a **b'') = [(False, u ''a ''), (True, u ''b'')]"
    by (simp add: spans_def enumerate_eq_zip eval_str)
  have od: "odd (delimiters (u ''a **b''))"
    by (simp add: delimiters_def eval_str)
  have row: "draw_row (u ''| c |'') = [Cell 60 8 (u ''c'') 1 0 (u ''C''), Ln None]"
    by (simp add: draw_row_def row_cells_def eval_str)
  note inst = inline_bold_spans [OF r1 h6 h7, where R = never]
  note inst2 = inline_bold_spans [OF r2 h6 h7, where R = never]
  from inst have "draw_inline (clean_emojis (u ''a **b'')) =
      concat (map (\<lambda>(bold, part).
                     SetFont (u ''Times'') (if bold then u ''B'' else []) 12 #
                     (if part \<noteq> [] then [Write 10 part] else []))
                  (spans (clean_emojis (u ''a **b'')))) @
      [Ln (Some 10)]"
    by blast
  then have d: "draw_inline (u ''a **b'') =
      [SetFont (u ''Times'') [] 12, Write 10 (u ''a ''),
       SetFont (u ''Times'') (u ''B'') 12, Write 10 (u ''b''), Ln (Some 10)]"
    unfolding e sp by (simp add: u_def)
  from inst have "process_line never ?st (u ''a **b'') =
      Inr (after_block ?st
             (pdf ?st @ table_calls (pending_rows ?st) @ draw_inline (clean_emojis (u ''a **b''))))"
    by blast
  then have p1: "process_line never ?st (u ''a **b'') =
     Inr \<lparr>skip_header = False, in_code_block = False, code_buffer = [], in_table = False,
        table_data = [],
        pdf = [SetFont (u ''Times'') [] 12, Write 10 (u ''a ''),
               SetFont (u ''Times'') (u ''B'') 12, Write 10 (u ''b''), Ln (Some 10)]\<rparr>"
    unfolding e d by (simp add: after_block_def pending_rows_def table_calls_def)
  from inst2 have "process_line never ?tb (u ''a **b'') =
      Inr (after_block ?tb
             (pdf ?tb @ table_calls (pending_rows ?tb) @ draw_inline (clean_emojis (u ''a **b''))))"
    by blast
  then have p2: "process_line never ?tb (u ''a **b'') =
     Inr \<lparr>skip_header = False, in_code_block = False, code_buffer = [], in_table = False,
        table_data = [],
        pdf = [SetFont (u ''Times'') [] 10, Cell 60 8 (u ''c'') 1 0 (u ''C''), Ln None,
               SetFont (u ''Times'') [] 12, Write 10 (u ''a ''),
               SetFont (u ''Times'') (u ''B'') 12, Write 10 (u ''b''), Ln (Some 10)]\<rparr>"
    unfolding e d by (simp add: after_block_def pending_rows_def table_calls_def row)
  from od sp p1 p2 show ?thesis by blast
qed

text \<open>
  The line \<open>a **b\<close>: the piece after the unmatched delimiter is written in bold, and the
  delimiter is not written at all.
\<close>

theorem unmatched_bold_counterexample:
  "process_lines never (initial_state []) [u ''## Objetivo'', u ''a **b''] =
     Inr \<lparr>skip_header = False, in_code_block = False, code_buffer = [], in_table = False,
          table_data = [],
          pdf = [Ln (Some 5), SetFont (u ''Times'') (u ''B'') 14,
                 MultiCell 0 10 (u ''Objetivo'') 0 (u ''C'') False,
                 Ln (Some 3), SetFont (u ''Times'') [] 12,
                 SetFont (u ''Times'') [] 12, Write 10 (u ''a ''),
                 SetFont (u ''Times'') (u ''B'') 12, Write 10 (u ''b''), Ln (Some 10)]\<rparr> \<and>
   spans (u ''a **b'') = [(False, u ''a ''), (True, u ''b'')] \<and>
   spans (u ''a **b'') \<noteq> [(False, u ''a ''), (False, u ''**b'')]"
  by (simp add: eval_layout spans_def enumerate_eq_zip eval_str)

section \<open>Long paragraphs\<close>

lemma concat_takes:
  "concat (map (\<lambda>k. take n (drop (n * k) t)) [0 ..< m]) = take (n * m) t"
proof (induction m)
  case 0
  then show ?case by simp
next
  case (Suc m)
  have "take (n * m) t @ take n (drop (n * m) t) = take (n * m + n) t"
    by (simp add: take_add)
  with Suc show ?case by (simp add: add.commute)
qed

lemma concat_chunks: "concat (chunks t) = t"
proof -
  have "chunks t = map (\<lambda>k. take 180 (drop (180 * k) t)) [0 ..< (length t + 179) div 180]"
    by (simp add: chunks_def comp_def)
  then have "concat (chunks t) = take (180 * ((length t + 179) div 180)) t"
    by (simp only: concat_takes)
  moreover have "length t \<le> 180 * ((length t + 179) div 180)"
  proof -
    have "(length t + 179) mod 180 < 180" by simp
    moreover have "180 * ((length t + 179) div 180) + (length t + 179) mod 180 = length t + 179"
      by (rule mult_div_mod_eq)
    ultimately show ?thesis by linarith
  qed
  ultimately show ?thesis by simp
qed

lemma length_chunk: "chunk \<in> set (chunks t) \<Longrightarrow> length chunk \<le> 180"
  by (auto simp: chunks_def)

lemma except_pass_emits: "\<exists>k. except_pass (emits R cs log) = log @ take k cs"
proof (induction cs arbitrary: log)
  case Nil
  then show ?case by (simp add: except_pass_def)
next
  case (Cons c cs)
  show ?case
  proof (cases "R log c")
    case True
    then have "except_pass (emits R (c # cs) log) = log @ take 0 (c # cs)"
      by (simp add: emit_def except_pass_def)
    then show ?thesis by blast
  next
    case False
    from Cons.IH [of "log @ [c]"] obtain k where
      "except_pass (emits R cs (log @ [c])) = (log @ [c]) @ take k cs" by blast
    with False have "except_pass (emits R (c # cs) log) = log @ take (Suc k) (c # cs)"
      by (simp add: emit_def)
    then show ?thesis by blast
  qed
qed

lemma draw_block_plain:
  "is_paragraph line \<Longrightarrow> \<not> contains (u ''**'') line \<Longrightarrow>
   draw_block R line log = Inr (draw_plain R line log)"
  by (simp add: draw_block_def is_paragraph_def)

lemma long_paragraph_line:
  assumes "\<not> skip_header st" and "\<not> in_code_block st" and "\<not> in_table st"
    and "\<not> is_fence raw" and "\<not> is_separator raw"
    and "is_paragraph (clean_emojis raw)" and "\<not> contains (u ''**'') (clean_emojis raw)"
    and "length (indent (clean_emojis raw)) > 200"
  shows "process_line R st raw =
    Inr (st\<lparr>pdf := except_pass
           (emits R (map (\<lambda>chunk. MultiCell 0 10 chunk 0 (u ''L'') False)
                         (filter (\<lambda>chunk. strip chunk \<noteq> []) (chunks (indent (clean_emojis raw)))))
                  (pdf st))\<rparr>)"
  using assms by (simp add: plain_line draw_block_plain draw_plain_def)

lemma chunk_index:
  "k < (length t + 179) div 180 \<Longrightarrow> 180 * k < length t"
proof -
  assume "k < (length t + 179) div 180"
  then have "Suc k \<le> (length t + 179) div 180" by simp
  then have "180 * Suc k \<le> 180 * ((length t + 179) div 180)" by simp
  moreover have "180 * ((length t + 179) div 180) \<le> length t + 179" by simp
  ultimately show ?thesis by simp
qed

lemma chunk_not_Nil: "chunk \<in> set (chunks t) \<Longrightarrow> chunk \<noteq> []"
  using chunk_index [of _ t] by (auto simp: chunks_def)

lemma length_chunk_butlast: "chunk \<in> set (butlast (chunks t)) \<Longrightarrow> length chunk = 180"
proof -
  assume c: "chunk \<in> set (butlast (chunks t))"
  let ?n = "(length t + 179) div 180"
  have "butlast (chunks t) = map (\<lambda>k. take 180 (drop (180 * k) t)) [0 ..< ?n - 1]"
    by (simp add: chunks_def comp_def butlast_conv_take take_map)
  with c obtain k where k: "k < ?n - 1" and ch: "chunk = take 180 (drop (180 * k) t)"
    by auto
  from k have "Suc k < ?n" by simp
  then have "180 * Suc k < length t" by (rule chunk_index)
  then show ?thesis unfolding ch by simp
qed

lemma concat_filter_le: "length (concat (filter P xs)) \<le> length (concat xs)"
  by (induction xs) auto

lemma concat_filter_less:
  "x \<in> set xs \<Longrightarrow> \<not> P x \<Longrightarrow> x \<noteq> [] \<Longrightarrow> length (concat (filter P xs)) < length (concat xs)"
proof (induction xs)
  case Nil
  then show ?case by simp
next
  case (Cons y ys)
  show ?case
  proof (cases "x = y")
    case True
    with Cons.prems obtain a as where "y = a # as" and "\<not> P y" by (cases y) auto
    with concat_filter_le [of P ys] show ?thesis by simp
  next
    case False
    with Cons have "length (concat (filter P ys)) < length (concat ys)" by simp
    then show ?thesis by simp
  qed
qed

lemma drawn_chunks_iff:
  "concat (filter (\<lambda>chunk. strip chunk \<noteq> []) (chunks t)) = t \<longleftrightarrow>
   (\<forall>chunk \<in> set (chunks t). strip chunk \<noteq> [])"
proof
  assume eq: "concat (filter (\<lambda>chunk. strip chunk \<noteq> []) (chunks t)) = t"
  show "\<forall>chunk \<in> set (chunks t). strip chunk \<noteq> []"
  proof (rule ccontr)
    assume "\<not> (\<forall>chunk \<in> set (chunks t). strip chunk \<noteq> [])"
    then obtain chunk where c: "chunk \<in> set (chunks t)" and b: "\<not> strip chunk \<noteq> []"
      by blast
    from concat_filter_less [of chunk "chunks t" "\<lambda>chunk. strip chunk \<noteq> []", OF c b chunk_not_Nil [OF c]]
    have "length (concat (filter (\<lambda>chunk. strip chunk \<noteq> []) (chunks t))) < length t"
      by (simp add: concat_chunks)
    with eq show False by simp
  qed
next
  assume "\<forall>chunk \<in> set (chunks t). strip chunk \<noteq> []"
  then show "concat (filter (\<lambda>chunk. strip chunk \<noteq> []) (chunks t)) = t"
    by (simp add: concat_chunks)
qed

lemma long_block_line:
  assumes "reaches_blocks st raw"
    and "is_paragraph (clean_emojis raw)" and "\<not> contains (u ''**'') (clean_emojis raw)"
    and "length (indent (clean_emojis raw)) > 200"
  shows "process_line R st raw =
    (case draw_table R (pending_rows st) (pdf st) of
       Inl e \<Rightarrow> Inl e
     | Inr log1 \<Rightarrow>
         Inr (after_block st
                (except_pass
                   (emits R (map (\<lambda>chunk. MultiCell 0 10 chunk 0 (u ''L'') False)
                                 (filter (\<lambda>chunk. strip chunk \<noteq> [])
                                    (chunks (indent (clean_emojis raw)))))
                          log1))))"
  using assms by (simp add: block_line draw_block_plain draw_plain_def cong: sum.case_cong)

text \<open>
  Claim C9, amended. In the direct-layout converter a paragraph line without \<open>**\<close> is a
  line that is not skipped, is read outside a code block, is no fence, no table separator
  and no row of an open table, and that, once its glyphs are deleted, is no heading, no rule
  and not blank, and contains no \<open>**\<close>. It is first indented by four spaces, unless it
  begins with \<open>-\<close>, \<open>*\<close> or \<open>>\<close>; when the indented text has more than 200 code
  points it is cut into consecutive chunks of 180 code points (the last one, which is not
  empty, may be shorter), whose concatenation in order is the indented text. When no canvas
  call raises, the rows of a table that is still open are drawn first, and then the chunks
  that are not made of whitespace only, in order, one cell each; a chunk of whitespace only
  is not drawn. On any canvas an error can leave the line only from the drawing of those
  rows: after them an initial part of the cells is drawn, and an error raised by a cell is
  caught; with no rows to draw no error leaves the line. The drawn chunks put together give
  the indented text if and only if no chunk consists of whitespace only.
\<close>

theorem long_paragraph_chunks:
  assumes "reaches_blocks st raw"
    and "is_paragraph (clean_emojis raw)" and "\<not> contains (u ''**'') (clean_emojis raw)"
    and "length (indent (clean_emojis raw)) > 200"
  shows "process_line never st raw =
      Inr (after_block st
             (pdf st @ table_calls (pending_rows st) @
              map (\<lambda>chunk. MultiCell 0 10 chunk 0 (u ''L'') False)
                  (filter (\<lambda>chunk. strip chunk \<noteq> []) (chunks (indent (clean_emojis raw)))))) \<and>
    process_line R st raw =
      (case draw_table R (pending_rows st) (pdf st) of
         Inl e \<Rightarrow> Inl e
       | Inr log1 \<Rightarrow>
           Inr (after_block st
                  (except_pass
                     (emits R (map (\<lambda>chunk. MultiCell 0 10 chunk 0 (u ''L'') False)
                                   (filter (\<lambda>chunk. strip chunk \<noteq> [])
                                      (chunks (indent (clean_emojis raw)))))
                            log1)))) \<and>
    (\<exists>k. except_pass
            (emits R (map (\<lambda>chunk. MultiCell 0 10 chunk 0 (u ''L'') False)
                          (filter (\<lambda>chunk. strip chunk \<noteq> [])
                             (chunks (indent (clean_emojis raw)))))
                   log) =
          log @ take k (map (\<lambda>chunk. MultiCell 0 10 chunk 0 (u ''L'') False)
                          (filter (\<lambda>chunk. strip chunk \<noteq> [])
                             (chunks (indent (clean_emojis raw)))))) \<and>
    (pending_rows st = [] \<longrightarrow>
       (\<exists>k. process_line R st raw =
          Inr (after_block st
                 (pdf st @
                  take k (map (\<lambda>chunk. MultiCell 0 10 chunk 0 (u ''L'') False)
                            (filter (\<lambda>chunk. strip chunk \<noteq> [])
                               (chunks (indent (clean_emojis raw))))))))) \<and>
    concat (chunks (indent (clean_emojis raw))) = indent (clean_emojis raw) \<and>
    (\<forall>chunk \<in> set (chunks (indent (clean_emojis raw))). chunk \<noteq> [] \<and> length chunk \<le> 180) \<and>
    (\<forall>chunk \<in> set (butlast (chunks (indent (clean_emojis raw)))). length chunk = 180) \<and>
    (concat (filter (\<lambda>chunk. strip chunk \<noteq> []) (chunks (indent (clean_emojis raw)))) =
       indent (clean_emojis raw) \<longleftrightarrow>
     (\<forall>chunk \<in> set (chunks (indent (clean_emojis raw))). strip chunk \<noteq> []))"
proof -
  let ?cells = "map (\<lambda>chunk. MultiCell 0 10 chunk 0 (u ''L'') False)
                 (filter (\<lambda>chunk. strip chunk \<noteq> []) (chunks (indent (clean_emojis raw))))"
  have g: "process_line R st raw =
      (case draw_table R (pending_rows st) (pdf st) of
         Inl e \<Rightarrow> Inl e
       | Inr log1 \<Rightarrow> Inr (after_block st (except_pass (emits R ?cells log1))))" for R
    by (rule long_block_line [OF assms])
  have a: "process_line never st raw =
      Inr (after_block st (pdf st @ table_calls (pending_rows st) @ ?cells))"
    unfolding g by (simp add: draw_table_never emits_never except_pass_def table_calls_def)
  have k: "\<exists>k. except_pass (emits R ?cells log) = log @ take k ?cells" for log
    by (rule except_pass_emits)
  have b: "pending_rows st = [] \<longrightarrow>
      (\<exists>k. process_line R st raw = Inr (after_block st (pdf st @ take k ?cells)))"
  proof
    assume "pending_rows st = []"
    then have "process_line R st raw = Inr (after_block st (except_pass (emits R ?cells (pdf st))))"
      unfolding g by (simp add: draw_table_Nil)
    with k [of "pdf st"] show "\<exists>k. process_line R st raw = Inr (after_block st (pdf st @ take k ?cells))"
      by auto
  qed
  have l: "\<forall>chunk \<in> set (chunks (indent (clean_emojis raw))). chunk \<noteq> [] \<and> length chunk \<le> 180"
    using chunk_not_Nil length_chunk by blast
  have m: "\<forall>chunk \<in> set (butlast (chunks (indent (clean_emojis raw)))). length chunk = 180"
    using length_chunk_butlast by blast
  show ?thesis
    using a g [of R] k [of log] b concat_chunks [of "indent (clean_emojis raw)"] l m
      drawn_chunks_iff [of "indent (clean_emojis raw)"]
    by (intro conjI) assumption+
qed

lemma contains_set: "contains p s \<Longrightarrow> set p \<subseteq> set s"
  by (auto simp: contains_iff)

lemma upt_0_2: "[0 ..< 2 :: nat] = [0, 1]"
  by (simp add: numeral_2_eq_2)

lemma upt_0_3: "[0 ..< 3 :: nat] = [0, 1, 2]"
  by (simp add: numeral_3_eq_3)

theorem long_paragraph_chunks_witness:
  "length (indent (clean_emojis (u ''x'' @ replicate 200 120))) > 200 \<and>
   process_line never
     \<lparr>skip_header = False, in_code_block = False, code_buffer = [], in_table = False,
      table_data = [], pdf = []\<rparr> (u ''x'' @ replicate 200 120) =
   Inr \<lparr>skip_header = False, in_code_block = False, code_buffer = [], in_table = False,
        table_data = [],
        pdf = [MultiCell 0 10 (u ''    x'' @ replicate 175 120) 0 (u ''L'') False,
               MultiCell 0 10 (replicate 25 120) 0 (u ''L'') False]\<rparr> \<and>
   process_line never
     \<lparr>skip_header = False, in_code_block = False, code_buffer = [], in_table = True,
      table_data = [u ''| c |''], pdf = []\<rparr> (u ''x'' @ replicate 200 120) =
   Inr \<lparr>skip_header = False, in_code_block = False, code_buffer = [], in_table = False,
        table_data = [],
        pdf = [SetFont (u ''Times'') [] 10, Cell 60 8 (u ''c'') 1 0 (u ''C''), Ln None,
               MultiCell 0 10 (u ''    x'' @ replicate 175 120) 0 (u ''L'') False,
               MultiCell 0 10 (replicate 25 120) 0 (u ''L'') False]\<rparr> \<and>
   process_line (\<lambda>log c. log \<noteq> [])
     \<lparr>skip_header = False, in_code_block = False, code_buffer = [], in_table = False,
      table_data = [], pdf = []\<rparr> (u ''x'' @ replicate 200 120) =
   Inr \<lparr>skip_header = False, in_code_block = False, code_buffer = [], in_table = False,
        table_data = [],
        pdf = [MultiCell 0 10 (u ''    x'' @ replicate 175 120) 0 (u ''L'') False]\<rparr> \<and>
   concat (chunks (indent (clean_emojis (u ''x'' @ replicate 200 120)))) =
     u ''    x'' @ replicate 200 120"
proof -
  let ?raw = "u ''x'' @ replicate 200 120"
  let ?st = "\<lparr>skip_header = False, in_code_block = False, code_buffer = [], in_table = False,
      table_data = [], pdf = []\<rparr>"
  let ?tb = "\<lparr>skip_header = False, in_code_block = False, code_buffer = [], in_table = True,
      table_data = [u ''| c |''], pdf = []\<rparr>"
  have e: "clean_emojis ?raw = ?raw"
    by (simp add: clean_emojis_def emoji_class_def u_def)
  have s: "set ?raw = {120}"
    by (simp add: u_def)
  have h4: "\<not> is_fence ?raw"
    unfolding is_fence_def e by (simp add: eval_str)
  have np: "\<not> contains (u ''|'') (clean_emojis ?raw)"
    unfolding e using contains_set [of "u ''|''" ?raw] s by (auto simp: u_def)
  then have h5: "\<not> is_separator ?raw"
    by (simp add: is_separator_def)
  have r1: "reaches_blocks ?st ?raw"
    using h4 h5 by (simp add: reaches_blocks_def skipped_def)
  have r2: "reaches_blocks ?tb ?raw"
    using h4 h5 np by (simp add: reaches_blocks_def skipped_def)
  have h6: "is_paragraph (clean_emojis ?raw)"
    unfolding e by (simp add: is_paragraph_def eval_str)
  have h7: "\<not> contains (u ''**'') (clean_emojis ?raw)"
    unfolding e using contains_set [of "u ''**''" ?raw] s by (auto simp: u_def)
  have i: "indent (clean_emojis ?raw) = u ''    x'' @ replicate 200 120"
    unfolding e by (simp add: indent_def eval_str)
  have h8: "length (indent (clean_emojis ?raw)) > 200"
    unfolding i by (simp add: u_def)
  have c: "chunks (u ''    x'' @ replicate 200 120) = [u ''    x'' @ replicate 175 120, replicate 25 120]"
    by (simp add: chunks_def u_def upt_0_2)
  have b: "filter (\<lambda>chunk. strip chunk \<noteq> []) [u ''    x'' @ replicate 175 120, replicate 25 120] =
      [u ''    x'' @ replicate 175 120, replicate 25 120]"
    by (simp add: eval_str)
  have row: "draw_row (u ''| c |'') = [Cell 60 8 (u ''c'') 1 0 (u ''C''), Ln None]"
    by (simp add: draw_row_def row_cells_def eval_str)
  note inst = long_paragraph_chunks [OF r1 h6 h7 h8, where R = never and log = "[]"]
  note inst2 = long_paragraph_chunks [OF r2 h6 h7 h8, where R = never and log = "[]"]
  from inst have "process_line never ?st ?raw =
      Inr (after_block ?st
             (pdf ?st @ table_calls (pending_rows ?st) @
              map (\<lambda>chunk. MultiCell 0 10 chunk 0 (u ''L'') False)
                  (filter (\<lambda>chunk. strip chunk \<noteq> []) (chunks (indent (clean_emojis ?raw))))))"
    by (rule conjunct1)
  then have p1: "process_line never ?st ?raw =
   Inr \<lparr>skip_header = False, in_code_block = False, code_buffer = [], in_table = False,
        table_data = [],
        pdf = [MultiCell 0 10 (u ''    x'' @ replicate 175 120) 0 (u ''L'') False,
               MultiCell 0 10 (replicate 25 120) 0 (u ''L'') False]\<rparr>"
    unfolding i c b by (simp add: after_block_def pending_rows_def table_calls_def)
  from inst2 have "process_line never ?tb ?raw =
      Inr (after_block ?tb
             (pdf ?tb @ table_calls (pending_rows ?tb) @
              map (\<lambda>chunk. MultiCell 0 10 chunk 0 (u ''L'') False)
                  (filter (\<lambda>chunk. strip chunk \<noteq> []) (chunks (indent (clean_emojis ?raw))))))"
    by (rule conjunct1)
  then have p2: "process_line never ?tb ?raw =
   Inr \<lparr>skip_header = False, in_code_block = False, code_buffer = [], in_table = False,
        table_data = [],
        pdf = [SetFont (u ''Times'') [] 10, Cell 60 8 (u ''c'') 1 0 (u ''C''), Ln None,
               MultiCell 0 10 (u ''    x'' @ replicate 175 120) 0 (u ''L'') False,
               MultiCell 0 10 (replicate 25 120) 0 (u ''L'') False]\<rparr>"
    unfolding i c b by (simp add: after_block_def pending_rows_def table_calls_def row)
  note inst3 = long_paragraph_chunks [OF r1 h6 h7 h8, where R = "\<lambda>log c. log \<noteq> []" and log = "[]"]
  from inst3 have "process_line (\<lambda>log c. log \<noteq> []) ?st ?raw =
      (case draw_table (\<lambda>log c. log \<noteq> []) (pending_rows ?st) (pdf ?st) of
         Inl e \<Rightarrow> Inl e
       | Inr log1 \<Rightarrow>
           Inr (after_block ?st
                  (except_pass
                     (emits (\<lambda>log c. log \<noteq> [])
                        (map (\<lambda>chunk. MultiCell 0 10 chunk 0 (u ''L'') False)
                             (filter (\<lambda>chunk. strip chunk \<noteq> [])
                                (chunks (indent (clean_emojis ?raw)))))
                        log1))))"
    by (elim conjE)
  then have p4: "process_line (\<lambda>log c. log \<noteq> []) ?st ?raw =
   Inr \<lparr>skip_header = False, in_code_block = False, code_buffer = [], in_table = False,
        table_data = [],
        pdf = [MultiCell 0 10 (u ''    x'' @ replicate 175 120) 0 (u ''L'') False]\<rparr>"
    unfolding i c b
    by (simp add: after_block_def pending_rows_def draw_table_Nil emit_def except_pass_def)
  from inst have "concat (chunks (indent (clean_emojis ?raw))) = indent (clean_emojis ?raw)"
    by (elim conjE)
  then have p3: "concat (chunks (indent (clean_emojis ?raw))) = u ''    x'' @ replicate 200 120"
    unfolding i .
  from h8 p1 p2 p4 p3 show ?thesis by (intro conjI)
qed

text \<open>
  A list item of 361 code points whose second chunk of 180 is made of spaces only: the
  chunk is not drawn, and the drawn chunks together are 180 code points shorter than the line.
\<close>

theorem blank_chunk_counterexample:
  "process_lines never (initial_state []) [u ''## Objetivo'', u ''-'' @ replicate 359 32 @ u ''y''] =
   Inr \<lparr>skip_header = False, in_code_block = False, code_buffer = [], in_table = False,
        table_data = [],
        pdf = [Ln (Some 5), SetFont (u ''Times'') (u ''B'') 14,
               MultiCell 0 10 (u ''Objetivo'') 0 (u ''C'') False,
               Ln (Some 3), SetFont (u ''Times'') [] 12,
               MultiCell 0 10 (u ''-'' @ replicate 179 32) 0 (u ''L'') False,
               MultiCell 0 10 (u ''y'') 0 (u ''L'') False]\<rparr> \<and>
   (u ''-'' @ replicate 179 32) @ u ''y'' \<noteq> u ''-'' @ replicate 359 32 @ u ''y''"
proof -
  let ?raw = "u ''-'' @ replicate 359 32 @ u ''y''"
  let ?st = "\<lparr>skip_header = False, in_code_block = False, code_buffer = [], in_table = False,
        table_data = [],
        pdf = [Ln (Some 5), SetFont (u ''Times'') (u ''B'') 14,
               MultiCell 0 10 (u ''Objetivo'') 0 (u ''C'') False,
               Ln (Some 3), SetFont (u ''Times'') [] 12]\<rparr>"
  have p: "process_line never (initial_state []) (u ''## Objetivo'') = Inr ?st"
    by (simp add: eval_layout eval_str)
  have e: "clean_emojis ?raw = ?raw"
    by (simp add: clean_emojis_def emoji_class_def u_def)
  have s: "set ?raw = {45, 32, 121}"
    by (auto simp: u_def)
  have h1: "\<not> skip_header ?st" and h2: "\<not> in_code_block ?st" and h3: "\<not> in_table ?st"
    by simp_all
  have h4: "\<not> is_fence ?raw"
    unfolding is_fence_def e by (simp add: eval_str)
  have h5: "\<not> is_separator ?raw"
    unfolding is_separator_def e using contains_set [of "u ''|''" ?raw] s by (auto simp: u_def)
  have h6: "is_paragraph (clean_emojis ?raw)"
    unfolding e by (simp add: is_paragraph_def eval_str)
  have h7: "\<not> contains (u ''**'') (clean_emojis ?raw)"
    unfolding e using contains_set [of "u ''**''" ?raw] s by (auto simp: u_def)
  have i: "indent (clean_emojis ?raw) = ?raw"
    unfolding e by (simp add: indent_def eval_str)
  have h8: "length (indent (clean_emojis ?raw)) > 200"
    unfolding i by (simp add: u_def)
  have c: "chunks ?raw = [u ''-'' @ replicate 179 32, replicate 180 32, u ''y'']"
    by (simp add: chunks_def u_def upt_0_3)
  have b: "filter (\<lambda>chunk. strip chunk \<noteq> []) [u ''-'' @ replicate 179 32, replicate 180 32, u ''y''] =
      [u ''-'' @ replicate 179 32, u ''y'']"
    by (simp add: eval_str)
  have l: "process_line never ?st ?raw =
      Inr (?st\<lparr>pdf := pdf ?st @
             [MultiCell 0 10 (u ''-'' @ replicate 179 32) 0 (u ''L'') False,
              MultiCell 0 10 (u ''y'') 0 (u ''L'') False]\<rparr>)"
    unfolding long_paragraph_line [OF h1 h2 h3 h4 h5 h6 h7 h8, of never] i c b
    by (simp add: emit_never except_pass_def)
  have "process_lines never (initial_state []) [u ''## Objetivo'', ?raw] =
      Inr (?st\<lparr>pdf := pdf ?st @
             [MultiCell 0 10 (u ''-'' @ replicate 179 32) 0 (u ''L'') False,
              MultiCell 0 10 (u ''y'') 0 (u ''L'') False]\<rparr>)"
    unfolding process_lines.simps p sum.case l by simp
  moreover have "(u ''-'' @ replicate 179 32) @ u ''y'' \<noteq> ?raw"
  proof
    assume "(u ''-'' @ replicate 179 32) @ u ''y'' = ?raw"
    then have "length ((u ''-'' @ replicate 179 32) @ u ''y'') = length ?raw" by (rule arg_cong)
    then show False by (simp add: u_def)
  qed
  ultimately show ?thesis by simp
qed

section \<open>Glyphs\<close>












section \<open>Headings\<close>

lemma dropWhile_snoc: "\<not> P x \<Longrightarrow> \<exists>ys. dropWhile P (xs @ [x]) = ys @ [x]"
  by (induction xs) auto

lemma strip_head: "\<not> isspace c \<Longrightarrow> \<exists>rest. strip (c # cs) = c # rest"
proof -
  assume c: "\<not> isspace c"
  then obtain ys where ys: "dropWhile isspace (rev cs @ [c]) = ys @ [c]"
    using dropWhile_snoc [of isspace c "rev cs"] by auto
  have front: "dropWhile isspace (c # cs) = c # cs"
    using c by simp
  have rv: "rev (c # cs) = rev cs @ [c]"
    by simp
  have "strip (c # cs) = c # rev ys"
    unfolding strip_def front rv ys by simp
  then show ?thesis by blast
qed

lemma hash_not_fence:
  assumes "startswith g (u ''#'')"
  shows "\<not> startswith (strip g) (u ''```'')"
proof -
  from assms obtain cs where g: "g = 35 # cs"
    by (auto simp: startswith_iff u_def)
  have "\<not> isspace 35" by (simp add: isspace_def)
  from strip_head [OF this, of cs] obtain rest where "strip g = 35 # rest"
    using g by blast
  then show ?thesis by (simp add: startswith_def u_def)
qed

lemma startswith_shorter: "startswith g (p @ q) \<Longrightarrow> startswith g p"
  by (auto simp: startswith_iff)

lemma level1_hash: "startswith g (u ''## '') \<Longrightarrow> startswith g (u ''#'')"
  using startswith_shorter [of g "u ''#''" "u ''# ''"] by (simp add: u_def)

lemma level2_hash: "startswith g (u ''### '') \<Longrightarrow> startswith g (u ''#'')"
  using startswith_shorter [of g "u ''#''" "u ''## ''"] by (simp add: u_def)

lemma level3_hash: "startswith g (u ''#### '') \<Longrightarrow> startswith g (u ''#'')"
  using startswith_shorter [of g "u ''#''" "u ''### ''"] by (simp add: u_def)

lemma level2_not_level1: "startswith g (u ''### '') \<Longrightarrow> \<not> startswith g (u ''## '')"
  by (auto simp: startswith_iff u_def)

lemma level3_not_level1: "startswith g (u ''#### '') \<Longrightarrow> \<not> startswith g (u ''## '')"
  by (auto simp: startswith_iff u_def)

lemma level3_not_level2: "startswith g (u ''#### '') \<Longrightarrow> \<not> startswith g (u ''### '')"
  by (auto simp: startswith_iff u_def)

lemma block_calls_level1:
  "startswith g (u ''## '') \<Longrightarrow>
   block_calls g = [Ln (Some 5), SetFont (u ''Times'') (u ''B'') 14,
                    MultiCell 0 10 (strip (drop 3 g)) 0 (u ''C'') False,
                    Ln (Some 3), SetFont (u ''Times'') [] 12]"
  by (simp add: block_calls_def draw_block_def emit_never)

lemma block_calls_level2:
  "startswith g (u ''### '') \<Longrightarrow>
   block_calls g = [Ln (Some 3), SetFont (u ''Times'') (u ''B'') 13,
                    MultiCell 0 10 (strip (drop 4 g)) 0 (u ''L'') False,
                    Ln (Some 2), SetFont (u ''Times'') [] 12]"
  using level2_not_level1 [of g] by (simp add: block_calls_def draw_block_def emit_never)

lemma block_calls_level3:
  "startswith g (u ''#### '') \<Longrightarrow>
   block_calls g = [Ln (Some 2), SetFont (u ''Times'') (u ''BI'') 12,
                    MultiCell 0 10 (u ''    '' @ strip (drop 5 g)) 0 (u ''L'') False,
                    Ln (Some 2), SetFont (u ''Times'') [] 12]"
  using level3_not_level1 [of g] level3_not_level2 [of g]
  by (simp add: block_calls_def draw_block_def emit_never)

lemma block_calls_other:
  "\<not> startswith g (u ''## '') \<Longrightarrow> \<not> startswith g (u ''### '') \<Longrightarrow>
   \<not> startswith g (u ''#### '') \<Longrightarrow>
   block_calls g =
     (if startswith g (u ''---'') then [Ln (Some 5)]
      else if strip g = [] then []
      else if contains (u ''**'') g then draw_inline g
      else draw_plain never g [])"
  by (simp add: block_calls_def draw_block_def emits_never emit_never)

text \<open>
  Claim C8, amended. The HTML/CSS converter rewrites every line from the marker line on,
  after the glyph substitution: a line that then begins with two, three or four hash signs
  and a space has that prefix replaced by one, two or three hash signs and a space, the rest
  of the line kept as it is; any other line is left as the glyph substitution gave it. In
  the direct-layout converter a line gets as far as the heading tests when it is not skipped
  (the marker has been seen, or the line carries it), is read outside a code block, is no
  fence, is no table separator (a pipe together with three dashes) and is no row of an open
  table (a pipe while a table is open). For such a line, if no canvas call raises, the rows
  of a table that is still open are drawn first and the table is closed; then, when the
  line, once its glyphs are deleted, begins with two, three or four hash signs and a space,
  it is drawn as a heading of level 1 (bold 14, centred), 2 (bold 13) or 3 (bold italic 12,
  after four spaces), and the text of the heading is the rest of the line with the
  whitespace at both ends stripped; with none of the three prefixes it is drawn as a rule,
  as a paragraph or not at all. A line with one of the three prefixes is never a fence. A
  line that does not get as far as the heading tests and is no fence makes no call on the
  canvas, whatever the canvas would do: so a line with one of the three prefixes that is
  skipped, or stands in a code block, or carries a pipe together with three dashes, or
  carries a pipe while a table is open, is not drawn as a heading. A fence that is not
  skipped draws, if no canvas call raises, the buffered code lines when it closes a code
  block and a line feed when it opens one; a skipped line changes nothing.
\<close>

theorem heading_levels:
  "(\<not> (skip \<and> \<not> startswith line objetivo_marker) \<longrightarrow>
      transform_lines skip (line # rest) =
        adjust_heading (convert_emojis line) # transform_lines False rest) \<and>
   (startswith g (u ''## '') \<longrightarrow> adjust_heading g = u ''# '' @ drop 3 g) \<and>
   (startswith g (u ''### '') \<longrightarrow> adjust_heading g = u ''## '' @ drop 4 g) \<and>
   (startswith g (u ''#### '') \<longrightarrow> adjust_heading g = u ''### '' @ drop 5 g) \<and>
   (\<not> startswith g (u ''## '') \<and> \<not> startswith g (u ''### '') \<and> \<not> startswith g (u ''#### '') \<longrightarrow>
      adjust_heading g = g) \<and>
   (reaches_blocks st raw \<longrightarrow>
      (startswith (clean_emojis raw) (u ''## '') \<longrightarrow>
         process_line never st raw =
           Inr (after_block st
                  (pdf st @ table_calls (pending_rows st) @
                   [Ln (Some 5), SetFont (u ''Times'') (u ''B'') 14,
                    MultiCell 0 10 (strip (drop 3 (clean_emojis raw))) 0 (u ''C'') False,
                    Ln (Some 3), SetFont (u ''Times'') [] 12]))) \<and>
      (startswith (clean_emojis raw) (u ''### '') \<longrightarrow>
         process_line never st raw =
           Inr (after_block st
                  (pdf st @ table_calls (pending_rows st) @
                   [Ln (Some 3), SetFont (u ''Times'') (u ''B'') 13,
                    MultiCell 0 10 (strip (drop 4 (clean_emojis raw))) 0 (u ''L'') False,
                    Ln (Some 2), SetFont (u ''Times'') [] 12]))) \<and>
      (startswith (clean_emojis raw) (u ''#### '') \<longrightarrow>
         process_line never st raw =
           Inr (after_block st
                  (pdf st @ table_calls (pending_rows st) @
                   [Ln (Some 2), SetFont (u ''Times'') (u ''BI'') 12,
                    MultiCell 0 10 (u ''    '' @ strip (drop 5 (clean_emojis raw))) 0 (u ''L'') False,
                    Ln (Some 2), SetFont (u ''Times'') [] 12]))) \<and>
      (\<not> startswith (clean_emojis raw) (u ''## '') \<and>
       \<not> startswith (clean_emojis raw) (u ''### '') \<and>
       \<not> startswith (clean_emojis raw) (u ''#### '') \<longrightarrow>
         process_line never st raw =
           Inr (after_block st
                  (pdf st @ table_calls (pending_rows st) @
                   (if startswith (clean_emojis raw) (u ''---'') then [Ln (Some 5)]
                    else if strip (clean_emojis raw) = [] then []
                    else if contains (u ''**'') (clean_emojis raw) then draw_inline (clean_emojis raw)
                    else draw_plain never (clean_emojis raw) []))))) \<and>
   (startswith (clean_emojis raw) (u ''## '') \<or> startswith (clean_emojis raw) (u ''### '') \<or>
    startswith (clean_emojis raw) (u ''#### '') \<longrightarrow> \<not> is_fence raw) \<and>
   (\<not> reaches_blocks st raw \<and> \<not> is_fence raw \<longrightarrow>
      (\<exists>st'. process_line R st raw = Inr st' \<and> pdf st' = pdf st)) \<and>
   (is_fence raw \<and> \<not> skipped st raw \<longrightarrow>
      process_line never st raw =
        Inr (if in_code_block st
             then st\<lparr>skip_header := False, code_buffer := [], in_code_block := False,
                     pdf := pdf st @ code_calls (code_buffer st)\<rparr>
             else st\<lparr>skip_header := False, in_code_block := True,
                     pdf := pdf st @ [Ln (Some 2)]\<rparr>)) \<and>
   (skipped st raw \<longrightarrow> process_line R st raw = Inr st)"
proof -
  have html: "(startswith g (u ''## '') \<longrightarrow> adjust_heading g = u ''# '' @ drop 3 g) \<and>
   (startswith g (u ''### '') \<longrightarrow> adjust_heading g = u ''## '' @ drop 4 g) \<and>
   (startswith g (u ''#### '') \<longrightarrow> adjust_heading g = u ''### '' @ drop 5 g) \<and>
   (\<not> startswith g (u ''## '') \<and> \<not> startswith g (u ''### '') \<and> \<not> startswith g (u ''#### '') \<longrightarrow>
      adjust_heading g = g)"
    using level2_not_level1 [of g] level3_not_level1 [of g] level3_not_level2 [of g]
    by (auto simp: adjust_heading_def)
  have loop: "\<not> (skip \<and> \<not> startswith line objetivo_marker) \<longrightarrow>
      transform_lines skip (line # rest) =
        adjust_heading (convert_emojis line) # transform_lines False rest"
    by simp
  have d: "reaches_blocks st raw \<longrightarrow>
      (startswith (clean_emojis raw) (u ''## '') \<longrightarrow>
         process_line never st raw =
           Inr (after_block st
                  (pdf st @ table_calls (pending_rows st) @
                   [Ln (Some 5), SetFont (u ''Times'') (u ''B'') 14,
                    MultiCell 0 10 (strip (drop 3 (clean_emojis raw))) 0 (u ''C'') False,
                    Ln (Some 3), SetFont (u ''Times'') [] 12]))) \<and>
      (startswith (clean_emojis raw) (u ''### '') \<longrightarrow>
         process_line never st raw =
           Inr (after_block st
                  (pdf st @ table_calls (pending_rows st) @
                   [Ln (Some 3), SetFont (u ''Times'') (u ''B'') 13,
                    MultiCell 0 10 (strip (drop 4 (clean_emojis raw))) 0 (u ''L'') False,
                    Ln (Some 2), SetFont (u ''Times'') [] 12]))) \<and>
      (startswith (clean_emojis raw) (u ''#### '') \<longrightarrow>
         process_line never st raw =
           Inr (after_block st
                  (pdf st @ table_calls (pending_rows st) @
                   [Ln (Some 2), SetFont (u ''Times'') (u ''BI'') 12,
                    MultiCell 0 10 (u ''    '' @ strip (drop 5 (clean_emojis raw))) 0 (u ''L'') False,
                    Ln (Some 2), SetFont (u ''Times'') [] 12]))) \<and>
      (\<not> startswith (clean_emojis raw) (u ''## '') \<and>
       \<not> startswith (clean_emojis raw) (u ''### '') \<and>
       \<not> startswith (clean_emojis raw) (u ''#### '') \<longrightarrow>
         process_line never st raw =
           Inr (after_block st
                  (pdf st @ table_calls (pending_rows st) @
                   (if startswith (clean_emojis raw) (u ''---'') then [Ln (Some 5)]
                    else if strip (clean_emojis raw) = [] then []
                    else if contains (u ''**'') (clean_emojis raw) then draw_inline (clean_emojis raw)
                    else draw_plain never (clean_emojis raw) []))))"
  proof (intro impI conjI, goal_cases)
    case 1
    then show ?case
      using block_calls_level1 [of "clean_emojis raw"] by (simp add: block_line_never)
  next
    case 2
    then show ?case
      using block_calls_level2 [of "clean_emojis raw"] by (simp add: block_line_never)
  next
    case 3
    then show ?case
      using block_calls_level3 [of "clean_emojis raw"] by (simp add: block_line_never)
  next
    case 4
    then show ?case
      using block_calls_other [of "clean_emojis raw"] by (simp add: block_line_never)
  qed
  have nf: "startswith (clean_emojis raw) (u ''## '') \<or> startswith (clean_emojis raw) (u ''### '') \<or>
    startswith (clean_emojis raw) (u ''#### '') \<longrightarrow> \<not> is_fence raw"
    using level1_hash [of "clean_emojis raw"] level2_hash [of "clean_emojis raw"]
      level3_hash [of "clean_emojis raw"] hash_not_fence [of "clean_emojis raw"]
    by (auto simp: is_fence_def)
  have si: "\<not> reaches_blocks st raw \<and> \<not> is_fence raw \<longrightarrow>
      (\<exists>st'. process_line R st raw = Inr st' \<and> pdf st' = pdf st)"
    using silent_line by blast
  have fe: "is_fence raw \<and> \<not> skipped st raw \<longrightarrow>
      process_line never st raw =
        Inr (if in_code_block st
             then st\<lparr>skip_header := False, code_buffer := [], in_code_block := False,
                     pdf := pdf st @ code_calls (code_buffer st)\<rparr>
             else st\<lparr>skip_header := False, in_code_block := True,
                     pdf := pdf st @ [Ln (Some 2)]\<rparr>)"
    using fence_line by blast
  have sk: "skipped st raw \<longrightarrow> process_line R st raw = Inr st"
    using skipped_line by blast
  from loop html d nf si fe sk show ?thesis by (elim conjE) (intro conjI; assumption)
qed

theorem heading_levels_witness:
  "adjust_heading (u ''## A'') = u ''# A'' \<and>
   adjust_heading (u ''### B'') = u ''## B'' \<and>
   adjust_heading (u ''#### C'') = u ''### C'' \<and>
   adjust_heading (u ''# D'') = u ''# D'' \<and>
   transform_lines False (u ''### B'' # []) = [u ''## B''] \<and>
   process_line never
     \<lparr>skip_header = False, in_code_block = False, code_buffer = [], in_table = False,
      table_data = [], pdf = []\<rparr> (u ''##  A '') =
     Inr \<lparr>skip_header = False, in_code_block = False, code_buffer = [], in_table = False,
          table_data = [],
          pdf = [Ln (Some 5), SetFont (u ''Times'') (u ''B'') 14,
                 MultiCell 0 10 (u ''A'') 0 (u ''C'') False,
                 Ln (Some 3), SetFont (u ''Times'') [] 12]\<rparr> \<and>
   process_line never
     \<lparr>skip_header = False, in_code_block = False, code_buffer = [], in_table = False,
      table_data = [], pdf = []\<rparr> (u ''### B'') =
     Inr \<lparr>skip_header = False, in_code_block = False, code_buffer = [], in_table = False,
          table_data = [],
          pdf = [Ln (Some 3), SetFont (u ''Times'') (u ''B'') 13,
                 MultiCell 0 10 (u ''B'') 0 (u ''L'') False,
                 Ln (Some 2), SetFont (u ''Times'') [] 12]\<rparr> \<and>
   process_line never
     \<lparr>skip_header = False, in_code_block = False, code_buffer = [], in_table = False,
      table_data = [], pdf = []\<rparr> (u ''#### C'') =
     Inr \<lparr>skip_header = False, in_code_block = False, code_buffer = [], in_table = False,
          table_data = [],
          pdf = [Ln (Some 2), SetFont (u ''Times'') (u ''BI'') 12,
                 MultiCell 0 10 (u ''    C'') 0 (u ''L'') False,
                 Ln (Some 2), SetFont (u ''Times'') [] 12]\<rparr> \<and>
   process_line never
     \<lparr>skip_header = False, in_code_block = False, code_buffer = [], in_table = False,
      table_data = [], pdf = []\<rparr> (u ''---'') =
     Inr \<lparr>skip_header = False, in_code_block = False, code_buffer = [], in_table = False,
          table_data = [], pdf = [Ln (Some 5)]\<rparr> \<and>
   process_line never
     \<lparr>skip_header = False, in_code_block = False, code_buffer = [], in_table = True,
      table_data = [u ''| c |''], pdf = []\<rparr> (u ''##  A '') =
     Inr \<lparr>skip_header = False, in_code_block = False, code_buffer = [], in_table = False,
          table_data = [],
          pdf = [SetFont (u ''Times'') [] 10, Cell 60 8 (u ''c'') 1 0 (u ''C''), Ln None,
                 Ln (Some 5), SetFont (u ''Times'') (u ''B'') 14,
                 MultiCell 0 10 (u ''A'') 0 (u ''C'') False,
                 Ln (Some 3), SetFont (u ''Times'') [] 12]\<rparr> \<and>
   (\<exists>st'. process_line never
            \<lparr>skip_header = False, in_code_block = True, code_buffer = [], in_table = False,
             table_data = [], pdf = []\<rparr> (u ''### B'') = Inr st' \<and> pdf st' = [])"
proof -
  let ?st = "\<lparr>skip_header = False, in_code_block = False, code_buffer = [], in_table = False,
      table_data = [], pdf = []\<rparr>"
  let ?tb = "\<lparr>skip_header = False, in_code_block = False, code_buffer = [], in_table = True,
      table_data = [u ''| c |''], pdf = []\<rparr>"
  let ?cb = "\<lparr>skip_header = False, in_code_block = True, code_buffer = [], in_table = False,
      table_data = [], pdf = []\<rparr>"
  have e: "clean_emojis (u ''##  A '') = u ''##  A ''" "clean_emojis (u ''### B'') = u ''### B''"
    "clean_emojis (u ''#### C'') = u ''#### C''" "clean_emojis (u ''---'') = u ''---''"
    by (simp_all add: clean_emojis_def emoji_class_def u_def)
  have sep: "\<not> is_separator (u ''##  A '')" "\<not> is_separator (u ''### B'')"
    "\<not> is_separator (u ''#### C'')" "\<not> is_separator (u ''---'')"
    unfolding is_separator_def e by (simp_all add: eval_str)
  have fen: "\<not> is_fence (u ''##  A '')" "\<not> is_fence (u ''### B'')"
    "\<not> is_fence (u ''#### C'')" "\<not> is_fence (u ''---'')"
    unfolding is_fence_def e by (simp_all add: eval_str)
  have np: "\<not> contains (u ''|'') (clean_emojis (u ''##  A ''))"
    unfolding e by (simp add: eval_str)
  have rb: "reaches_blocks ?st (u ''##  A '')" "reaches_blocks ?st (u ''### B'')"
    "reaches_blocks ?st (u ''#### C'')" "reaches_blocks ?st (u ''---'')"
    using sep fen by (simp_all add: reaches_blocks_def skipped_def)
  have rt: "reaches_blocks ?tb (u ''##  A '')"
    using sep fen np by (simp add: reaches_blocks_def skipped_def)
  have nr: "\<not> reaches_blocks ?cb (u ''### B'') \<and> \<not> is_fence (u ''### B'')"
    using fen by (simp add: reaches_blocks_def)
  have g1: "startswith (u ''## A'') (u ''## '')" and g2: "startswith (u ''### B'') (u ''### '')"
    and g3: "startswith (u ''#### C'') (u ''#### '')"
    and g4: "\<not> startswith (u ''# D'') (u ''## '') \<and> \<not> startswith (u ''# D'') (u ''### '') \<and>
             \<not> startswith (u ''# D'') (u ''#### '')"
    by (simp_all add: eval_str)
  have r1: "startswith (clean_emojis (u ''##  A '')) (u ''## '')"
    and r2: "startswith (clean_emojis (u ''### B'')) (u ''### '')"
    and r3: "startswith (clean_emojis (u ''#### C'')) (u ''#### '')"
    and r4: "\<not> startswith (clean_emojis (u ''---'')) (u ''## '') \<and>
       \<not> startswith (clean_emojis (u ''---'')) (u ''### '') \<and>
       \<not> startswith (clean_emojis (u ''---'')) (u ''#### '')"
    unfolding e by (simp_all add: eval_str)
  have sk: "\<not> (False \<and> \<not> startswith (u ''### B'') objetivo_marker)" by simp
  have ce: "convert_emojis (u ''### B'') = u ''### B''"
    by (simp add: convert_emojis_def emoji_replacements_def eval_str)
  have row: "draw_row (u ''| c |'') = [Cell 60 8 (u ''c'') 1 0 (u ''C''), Ln None]"
    by (simp add: draw_row_def row_cells_def eval_str)
  have a1: "adjust_heading (u ''## A'') = u ''# '' @ drop 3 (u ''## A'')"
    using heading_levels [where g = "u ''## A''"] g1 by blast
  have a2: "adjust_heading (u ''### B'') = u ''## '' @ drop 4 (u ''### B'')"
    using heading_levels [where g = "u ''### B''"] g2 by blast
  have a3: "adjust_heading (u ''#### C'') = u ''### '' @ drop 5 (u ''#### C'')"
    using heading_levels [where g = "u ''#### C''"] g3 by blast
  have a4: "adjust_heading (u ''# D'') = u ''# D''"
    using heading_levels [where g = "u ''# D''"] g4 by blast
  have t: "transform_lines False (u ''### B'' # []) =
      adjust_heading (convert_emojis (u ''### B'')) # transform_lines False []"
    using heading_levels [where skip = False and line = "u ''### B''" and rest = "[]"] sk by blast
  have p1: "process_line never ?st (u ''##  A '') =
      Inr (after_block ?st
             (pdf ?st @ table_calls (pending_rows ?st) @
              [Ln (Some 5), SetFont (u ''Times'') (u ''B'') 14,
               MultiCell 0 10 (strip (drop 3 (clean_emojis (u ''##  A '')))) 0 (u ''C'') False,
               Ln (Some 3), SetFont (u ''Times'') [] 12]))"
    using heading_levels [where st = ?st and raw = "u ''##  A ''"] rb(1) r1 by blast
  have p2: "process_line never ?st (u ''### B'') =
      Inr (after_block ?st
             (pdf ?st @ table_calls (pending_rows ?st) @
              [Ln (Some 3), SetFont (u ''Times'') (u ''B'') 13,
               MultiCell 0 10 (strip (drop 4 (clean_emojis (u ''### B'')))) 0 (u ''L'') False,
               Ln (Some 2), SetFont (u ''Times'') [] 12]))"
    using heading_levels [where st = ?st and raw = "u ''### B''"] rb(2) r2 by blast
  have p3: "process_line never ?st (u ''#### C'') =
      Inr (after_block ?st
             (pdf ?st @ table_calls (pending_rows ?st) @
              [Ln (Some 2), SetFont (u ''Times'') (u ''BI'') 12,
               MultiCell 0 10 (u ''    '' @ strip (drop 5 (clean_emojis (u ''#### C'')))) 0 (u ''L'') False,
               Ln (Some 2), SetFont (u ''Times'') [] 12]))"
    using heading_levels [where st = ?st and raw = "u ''#### C''"] rb(3) r3 by blast
  have p4: "process_line never ?st (u ''---'') =
      Inr (after_block ?st
             (pdf ?st @ table_calls (pending_rows ?st) @
              (if startswith (clean_emojis (u ''---'')) (u ''---'') then [Ln (Some 5)]
               else if strip (clean_emojis (u ''---'')) = [] then []
               else if contains (u ''**'') (clean_emojis (u ''---'')) then draw_inline (clean_emojis (u ''---''))
               else draw_plain never (clean_emojis (u ''---'')) [])))"
    using heading_levels [where st = ?st and raw = "u ''---''"] rb(4) r4 by blast
  have p5: "process_line never ?tb (u ''##  A '') =
      Inr (after_block ?tb
             (pdf ?tb @ table_calls (pending_rows ?tb) @
              [Ln (Some 5), SetFont (u ''Times'') (u ''B'') 14,
               MultiCell 0 10 (strip (drop 3 (clean_emojis (u ''##  A '')))) 0 (u ''C'') False,
               Ln (Some 3), SetFont (u ''Times'') [] 12]))"
    using heading_levels [where st = ?tb and raw = "u ''##  A ''"] rt r1 by blast
  have p6: "\<exists>st'. process_line never ?cb (u ''### B'') = Inr st' \<and> pdf st' = pdf ?cb"
    using heading_levels [where st = ?cb and raw = "u ''### B''" and R = never] nr by blast
  have v1: "strip (drop 3 (u ''##  A '')) = u ''A''" and v2: "strip (drop 4 (u ''### B'')) = u ''B''"
    and v3: "u ''    '' @ strip (drop 5 (u ''#### C'')) = u ''    C''"
    and v4: "startswith (u ''---'') (u ''---'')"
    by (simp_all add: eval_str)
  have w1: "adjust_heading (u ''## A'') = u ''# A''" unfolding a1 by (simp add: u_def)
  have w2: "adjust_heading (u ''### B'') = u ''## B''" unfolding a2 by (simp add: u_def)
  have w3: "adjust_heading (u ''#### C'') = u ''### C''" unfolding a3 by (simp add: u_def)
  have w5: "transform_lines False (u ''### B'' # []) = [u ''## B'']"
    unfolding t ce w2 by simp
  have q1: "process_line never ?st (u ''##  A '') =
     Inr \<lparr>skip_header = False, in_code_block = False, code_buffer = [], in_table = False,
          table_data = [],
          pdf = [Ln (Some 5), SetFont (u ''Times'') (u ''B'') 14,
                 MultiCell 0 10 (u ''A'') 0 (u ''C'') False,
                 Ln (Some 3), SetFont (u ''Times'') [] 12]\<rparr>"
    unfolding p1 e v1 by (simp add: after_block_def pending_rows_def table_calls_def)
  have q2: "process_line never ?st (u ''### B'') =
     Inr \<lparr>skip_header = False, in_code_block = False, code_buffer = [], in_table = False,
          table_data = [],
          pdf = [Ln (Some 3), SetFont (u ''Times'') (u ''B'') 13,
                 MultiCell 0 10 (u ''B'') 0 (u ''L'') False,
                 Ln (Some 2), SetFont (u ''Times'') [] 12]\<rparr>"
    unfolding p2 e v2 by (simp add: after_block_def pending_rows_def table_calls_def)
  have q3: "process_line never ?st (u ''#### C'') =
     Inr \<lparr>skip_header = False, in_code_block = False, code_buffer = [], in_table = False,
          table_data = [],
          pdf = [Ln (Some 2), SetFont (u ''Times'') (u ''BI'') 12,
                 MultiCell 0 10 (u ''    C'') 0 (u ''L'') False,
                 Ln (Some 2), SetFont (u ''Times'') [] 12]\<rparr>"
    unfolding p3 e v3 by (simp add: after_block_def pending_rows_def table_calls_def)
  have q4: "process_line never ?st (u ''---'') =
     Inr \<lparr>skip_header = False, in_code_block = False, code_buffer = [], in_table = False,
          table_data = [], pdf = [Ln (Some 5)]\<rparr>"
    unfolding p4 e using v4 by (simp add: after_block_def pending_rows_def table_calls_def)
  have q5: "process_line never ?tb (u ''##  A '') =
     Inr \<lparr>skip_header = False, in_code_block = False, code_buffer = [], in_table = False,
          table_data = [],
          pdf = [SetFont (u ''Times'') [] 10, Cell 60 8 (u ''c'') 1 0 (u ''C''), Ln None,
                 Ln (Some 5), SetFont (u ''Times'') (u ''B'') 14,
                 MultiCell 0 10 (u ''A'') 0 (u ''C'') False,
                 Ln (Some 3), SetFont (u ''Times'') [] 12]\<rparr>"
    unfolding p5 e v1 by (simp add: after_block_def pending_rows_def table_calls_def row)
  have q6: "\<exists>st'. process_line never ?cb (u ''### B'') = Inr st' \<and> pdf st' = []"
    using p6 by simp
  from w1 w2 w3 a4 w5 q1 q2 q3 q4 q5 q6 show ?thesis by (intro conjI)
qed

text \<open>
  A line that begins with two hash signs and a space, but stands between two fences: the
  direct-layout converter draws it as a line of code, not as a heading.
\<close>

theorem heading_in_code_block_counterexample:
  "startswith (u ''## x'') (u ''## '') \<and>
   process_lines never (initial_state [])
     [u ''## Objetivo'', u ''```'', u ''## x'', u ''```''] =
   Inr \<lparr>skip_header = False, in_code_block = False, code_buffer = [], in_table = False,
        table_data = [],
        pdf = [Ln (Some 5), SetFont (u ''Times'') (u ''B'') 14,
               MultiCell 0 10 (u ''Objetivo'') 0 (u ''C'') False,
               Ln (Some 3), SetFont (u ''Times'') [] 12,
               Ln (Some 2), SetFont (u ''Courier'') [] 10, SetFillColor 245 245 245,
               MultiCell 0 5 (u ''## x'') 0 (u ''L'') True, SetFillColor 255 255 255]\<rparr>"
  by (simp add: eval_layout eval_str)

section \<open>The reference list\<close>

lemma process_line_never_total: "\<exists>st'. process_line never st raw = Inr st'"
  by (simp add: process_line_def body_line_def table_or_block_def Let_def
        draw_code_buffer_never emit_never draw_table_never draw_block_never)

lemma process_lines_never_total: "\<exists>st'. process_lines never st ls = Inr st'"
proof (induction ls arbitrary: st)
  case Nil
  then show ?case by simp
next
  case (Cons raw ls)
  obtain st1 where "process_line never st raw = Inr st1"
    using process_line_never_total by blast
  with Cons.IH [of st1] show ?case by simp
qed

lemma process_document_total: "\<exists>m lines. process_document content = Inr (m, lines)"
proof -
  have "clave_plain \<noteq> []" by (simp add: clave_plain_def u_not_Nil)
  from scan_lines_total [OF this]
  obtain m where "scan_lines clave_plain empty_metadata
      (take 10 (split (clean_text content) (u ''\<newline>''))) = Inr m"
    by blast
  then show ?thesis by (simp add: process_document_def)
qed

lemma create_apa_pdf_ends:
  assumes "create_apa_pdf R content output_file = Inr log"
  shows "\<exists>body. log = body @ references_section @ [Output output_file]"
proof -
  from assms have "\<exists>before. emits R (references_section @ [Output output_file]) before = Inr log"
    by (auto simp: create_apa_pdf_def canvas_error_def split: sum.splits prod.splits)
  then obtain before where
    "emits R (references_section @ [Output output_file]) before = Inr log"
    by blast
  from emits_Inr [OF this] show ?thesis by blast
qed

lemma convert_to_pdf_total:
  "\<exists>m. convert_to_pdf markdown content =
     Inr (html_head @
          markdown (apa_content m @
                    join (u ''\<newline>'') (transform_lines True (split content (u ''\<newline>'')))) @
          html_tail,
          create_apa_css)"
proof -
  have "clave_accented \<noteq> []" by (simp add: clave_accented_def)
  from scan_lines_total [OF this]
  obtain m where "scan_lines clave_accented empty_metadata (split content (u ''\<newline>'')) = Inr m"
    by blast
  then have "convert_to_pdf markdown content =
     Inr (html_head @
          markdown (apa_content m @
                    join (u ''\<newline>'') (transform_lines True (split content (u ''\<newline>'')))) @
          html_tail,
          create_apa_css)"
    by (simp add: convert_to_pdf_def process_markdown_for_apa_def)
  then show ?thesis by blast
qed

text \<open>
  Claim C6, amended. The direct-layout converter ends every document it completes with the
  same calls: a new page, the centred heading \<open>Referencias\<close>, the five literal entries
  of \<open>referencias\<close> with their spacing, and the output of the file; on a canvas that
  never raises it completes every document. The HTML/CSS converter appends nothing of the
  kind: what it hands to the rendering backend is the fixed head of the page, the translation
  of the title page, the abstract and the transformed lines of the input, and the fixed tail
  that closes \<open>body\<close> and \<open>html\<close>, together with the stylesheet.
\<close>

theorem references_appended:
  "(\<exists>body. create_apa_pdf never content output_file =
       Inr (body @ references_section @ [Output output_file])) \<and>
   (create_apa_pdf R content output_file = Inr log \<longrightarrow>
      (\<exists>body. log = body @ references_section @ [Output output_file])) \<and>
   (\<exists>m. convert_to_pdf markdown content =
       Inr (html_head @
            markdown (apa_content m @
                      join (u ''\<newline>'') (transform_lines True (split content (u ''\<newline>'')))) @
            html_tail,
            create_apa_css))"
proof -
  obtain m lines where d: "process_document content = Inr (m, lines)"
    using process_document_total by blast
  obtain st where
    "process_lines never (initial_state (title_page m @ SetPageNumStarted # abstract_page)) lines = Inr st"
    using process_lines_never_total by blast
  from create_apa_pdf_never [OF d this]
  have a: "\<exists>body. create_apa_pdf never content output_file =
       Inr (body @ references_section @ [Output output_file])"
    by blast
  show ?thesis
    using a create_apa_pdf_ends convert_to_pdf_total by blast
qed

theorem references_appended_witness:
  "create_apa_pdf never (u ''## Objetivo'') (u ''out.pdf'') =
     Inr ((title_page empty_metadata @ SetPageNumStarted # abstract_page) @
          [Ln (Some 5), SetFont (u ''Times'') (u ''B'') 14,
           MultiCell 0 10 (u ''Objetivo'') 0 (u ''C'') False,
           Ln (Some 3), SetFont (u ''Times'') [] 12] @
          references_section @ [Output (u ''out.pdf'')]) \<and>
   (\<exists>body. (title_page empty_metadata @ SetPageNumStarted # abstract_page) @
          [Ln (Some 5), SetFont (u ''Times'') (u ''B'') 14,
           MultiCell 0 10 (u ''Objetivo'') 0 (u ''C'') False,
           Ln (Some 3), SetFont (u ''Times'') [] 12] @
          references_section @ [Output (u ''out.pdf'')] =
        body @ references_section @ [Output (u ''out.pdf'')])"
proof -
  let ?log = "(title_page empty_metadata @ SetPageNumStarted # abstract_page) @
          [Ln (Some 5), SetFont (u ''Times'') (u ''B'') 14,
           MultiCell 0 10 (u ''Objetivo'') 0 (u ''C'') False,
           Ln (Some 3), SetFont (u ''Times'') [] 12] @
          references_section @ [Output (u ''out.pdf'')]"
  have c: "clean_text (u ''## Objetivo'') = u ''## Objetivo''"
    by (rule clean_text_ascii) (simp add: u_def)
  have d: "process_document (u ''## Objetivo'') = Inr (empty_metadata, [u ''## Objetivo''])"
    unfolding process_document_def c by (simp add: scan_line_def clave_plain_def eval_str)
  have l: "process_lines never (initial_state log) [u ''## Objetivo''] =
      Inr \<lparr>skip_header = False, in_code_block = False, code_buffer = [], in_table = False,
          table_data = [],
          pdf = log @ [Ln (Some 5), SetFont (u ''Times'') (u ''B'') 14,
           MultiCell 0 10 (u ''Objetivo'') 0 (u ''C'') False,
           Ln (Some 3), SetFont (u ''Times'') [] 12]\<rparr>" for log
    by (simp add: eval_layout eval_str)
  have r: "create_apa_pdf never (u ''## Objetivo'') (u ''out.pdf'') = Inr ?log"
    using create_apa_pdf_never [OF d l] by simp
  from references_appended [where R = never and content = "u ''## Objetivo''"
      and output_file = "u ''out.pdf''" and log = ?log] r
  have "\<exists>body. ?log = body @ references_section @ [Output (u ''out.pdf'')]"
    by blast
  with r show ?thesis by blast
qed

text \<open>
  A document that is only the marker heading: the Markdown that the HTML/CSS converter
  hands on is the title page, the abstract and the remapped heading. The first entry of the
  reference list occurs neither in it, nor in the head and the tail of the page, nor in the
  stylesheet.
\<close>

theorem html_references_counterexample:
  "process_markdown_for_apa (u ''## '' @ [0x1F3AF] @ u '' Objetivo'') =
     Inr (apa_content empty_metadata @ u ''#  Objetivo'') \<and>
   \<not> contains (hd referencias) (apa_content empty_metadata @ u ''#  Objetivo'') \<and>
   \<not> contains (hd referencias) html_head \<and>
   \<not> contains (hd referencias) html_tail \<and>
   \<not> contains (hd referencias) create_apa_css"
proof -
  have nine: "57 \<in> set (hd referencias)"
    by (simp add: referencias_def u_def)
  have absent: "\<not> contains (hd referencias) s" if "57 \<notin> set s" for s
    using contains_set [of "hd referencias" s] nine that by blast
  have a: "process_markdown_for_apa (u ''## '' @ [0x1F3AF] @ u '' Objetivo'') =
     Inr (apa_content empty_metadata @ u ''#  Objetivo'')"
    by (simp add: process_markdown_for_apa_def scan_line_def clave_accented_def objetivo_marker_def
          convert_emojis_def emoji_replacements_def adjust_heading_def eval_str)
  have b: "57 \<notin> set (apa_content empty_metadata @ u ''#  Objetivo'')"
    by (simp add: apa_content_def empty_metadata_def u_def)
  have c: "57 \<notin> set html_head" "57 \<notin> set html_tail"
    by (simp_all add: html_head_def html_tail_def u_def)
  have d: "57 \<notin> set create_apa_css"
    by (simp add: create_apa_css_def u_def)
  from a absent [OF b] absent [OF c(1)] absent [OF c(2)] absent [OF d] show ?thesis
    by blast
qed

end
